theory Spec2Isabelle
  imports Complex_Main "HOL-Library.AList"
begin

section \<open>The response-assessment engine of \<^verbatim>\<open>src/lib/scoring.ts\<close>\<close>

text \<open>
  The theory embeds the scoring module: the aggregation functions, the score-level table,
  the grammar, vocabulary, content and sentiment analysers, the audio metric estimator,
  the score combiner and the entry point \<^verbatim>\<open>assessResponse\<close>.

  Conventions of the embedding.
  \<^item> A JavaScript number is a \<open>jsnum\<close>: a real number, one of the two infinities, or NaN.
    A division by zero yields NaN or an infinity as in JavaScript, and every comparison
    with NaN is false. The sign of zero is not modelled.
  \<^item> The aggregation functions \<^verbatim>\<open>calculateSectionScore\<close> and \<^verbatim>\<open>calculateOverallScore\<close> round
    a quotient of sums that their caller may form from fractions, so each of their sums and
    quotients is rounded to double precision (\<open>to_double\<close>). Elsewhere the arithmetic on
    finite numbers is exact.
  \<^item> Counters, lengths and the point totals of the analysers only ever hold integers;
    they are \<open>nat\<close> or \<open>int\<close> and become a \<open>jsnum\<close> where the source divides or
    compares them with a fraction.
  \<^item> A string is a list of 8-bit characters, read as ISO-8859-1 code points.
  \<^item> A computation that may raise an exception returns a sum: \<open>Inl\<close> is the exception.
  \<^item> A computation that may run forever returns an \<open>option\<close>: \<open>None\<close> is "does not return".
\<close>

subsection \<open>JavaScript numbers\<close>

datatype jsnum = Fin real | PosInf | NegInf | NaN

definition num :: "nat \<Rightarrow> jsnum" where
  "num n = Fin (real n)"

fun js_neg :: "jsnum \<Rightarrow> jsnum" where
  "js_neg (Fin a) = Fin (- a)"
| "js_neg PosInf = NegInf"
| "js_neg NegInf = PosInf"
| "js_neg NaN = NaN"

fun js_add :: "jsnum \<Rightarrow> jsnum \<Rightarrow> jsnum" where
  "js_add (Fin a) (Fin b) = Fin (a + b)"
| "js_add NaN y = NaN"
| "js_add x NaN = NaN"
| "js_add PosInf NegInf = NaN"
| "js_add NegInf PosInf = NaN"
| "js_add PosInf y = PosInf"
| "js_add NegInf y = NegInf"
| "js_add (Fin a) y = y"

definition js_sub :: "jsnum \<Rightarrow> jsnum \<Rightarrow> jsnum" where
  "js_sub x y = js_add x (js_neg y)"

fun js_sign_inf :: "bool \<Rightarrow> jsnum" where
  "js_sign_inf positive = (if positive then PosInf else NegInf)"

fun js_mul :: "jsnum \<Rightarrow> jsnum \<Rightarrow> jsnum" where
  "js_mul (Fin a) (Fin b) = Fin (a * b)"
| "js_mul NaN y = NaN"
| "js_mul x NaN = NaN"
| "js_mul (Fin a) PosInf = (if a = 0 then NaN else js_sign_inf (0 < a))"
| "js_mul (Fin a) NegInf = (if a = 0 then NaN else js_sign_inf (a < 0))"
| "js_mul PosInf (Fin b) = (if b = 0 then NaN else js_sign_inf (0 < b))"
| "js_mul NegInf (Fin b) = (if b = 0 then NaN else js_sign_inf (b < 0))"
| "js_mul PosInf PosInf = PosInf"
| "js_mul PosInf NegInf = NegInf"
| "js_mul NegInf PosInf = NegInf"
| "js_mul NegInf NegInf = PosInf"

fun js_div :: "jsnum \<Rightarrow> jsnum \<Rightarrow> jsnum" where
  "js_div (Fin a) (Fin b) =
     (if b = 0 then (if a = 0 then NaN else js_sign_inf (0 < a)) else Fin (a / b))"
| "js_div NaN y = NaN"
| "js_div x NaN = NaN"
| "js_div (Fin a) PosInf = Fin 0"
| "js_div (Fin a) NegInf = Fin 0"
| "js_div PosInf (Fin b) = js_sign_inf (0 \<le> b)"
| "js_div NegInf (Fin b) = js_sign_inf (b < 0)"
| "js_div PosInf y = NaN"
| "js_div NegInf y = NaN"

fun js_less :: "jsnum \<Rightarrow> jsnum \<Rightarrow> bool" where
  "js_less (Fin a) (Fin b) = (a < b)"
| "js_less NaN y = False"
| "js_less x NaN = False"
| "js_less NegInf NegInf = False"
| "js_less NegInf y = True"
| "js_less x PosInf = (x \<noteq> PosInf)"
| "js_less x y = False"

definition js_greater :: "jsnum \<Rightarrow> jsnum \<Rightarrow> bool" where
  "js_greater x y = js_less y x"

fun js_le :: "jsnum \<Rightarrow> jsnum \<Rightarrow> bool" where
  "js_le NaN y = False"
| "js_le x NaN = False"
| "js_le x y = (x = y \<or> js_less x y)"

definition js_ge :: "jsnum \<Rightarrow> jsnum \<Rightarrow> bool" where
  "js_ge x y = js_le y x"

text \<open>\<^verbatim>\<open>Math.min\<close> and \<^verbatim>\<open>Math.max\<close> return NaN when an argument is NaN.\<close>

fun Math_min :: "jsnum \<Rightarrow> jsnum \<Rightarrow> jsnum" where
  "Math_min NaN y = NaN"
| "Math_min x NaN = NaN"
| "Math_min x y = (if js_less y x then y else x)"

fun Math_max :: "jsnum \<Rightarrow> jsnum \<Rightarrow> jsnum" where
  "Math_max NaN y = NaN"
| "Math_max x NaN = NaN"
| "Math_max x y = (if js_less x y then y else x)"

text \<open>\<^verbatim>\<open>Math.round\<close> rounds to the nearest integer, a tie towards plus infinity.\<close>

fun Math_round :: "jsnum \<Rightarrow> jsnum" where
  "Math_round (Fin a) = Fin (of_int \<lfloor>a + 1 / 2\<rfloor>)"
| "Math_round x = x"

fun Math_sqrt :: "jsnum \<Rightarrow> jsnum" where
  "Math_sqrt (Fin a) = (if a < 0 then NaN else Fin (sqrt a))"
| "Math_sqrt PosInf = PosInf"
| "Math_sqrt x = NaN"

text \<open>The truth value of a number in a condition: zero and NaN are false.\<close>

fun truthy :: "jsnum \<Rightarrow> bool" where
  "truthy (Fin a) = (a \<noteq> 0)"
| "truthy NaN = False"
| "truthy x = True"

subsection \<open>Rounding to double precision\<close>

text \<open>
  A JavaScript number is an IEEE 754 double, and the result of an operation is the exact
  result rounded to the nearest double, a tie to the one with an even significand.
  \<open>binary_exponent x\<close> is the exponent \<open>e\<close> with \<open>2 ^ e \<le> \<bar>x\<bar> < 2 ^ (e + 1)\<close>. The doubles of
  that size are the multiples of \<open>2 ^ (e - 52)\<close> (a significand of 53 bits), the doubles
  below \<open>2 ^ (- 1022)\<close> are the multiples of \<open>2 ^ (- 1074)\<close>, and a rounded result of
  \<open>2 ^ 1024\<close> or more is an infinity.
\<close>

definition round_half_even :: "real \<Rightarrow> int" where
  "round_half_even y =
     (let f = \<lfloor>y\<rfloor>; d = y - of_int f
      in if d < 1 / 2 then f else if d > 1 / 2 then f + 1 else if even f then f else f + 1)"

definition binary_exponent :: "real \<Rightarrow> int" where
  "binary_exponent x = \<lfloor>log 2 \<bar>x\<bar>\<rfloor>"

definition to_double :: "real \<Rightarrow> real" where
  "to_double x =
     (if x = 0 then 0
      else let ulp = 2 powi (max (binary_exponent x - 52) (- 1074))
           in ulp * of_int (round_half_even (x / ulp)))"

fun round_double :: "jsnum \<Rightarrow> jsnum" where
  "round_double (Fin a) =
     (if 2 ^ 1024 \<le> \<bar>to_double a\<bar> then js_sign_inf (0 < a) else Fin (to_double a))"
| "round_double x = x"

definition double_add :: "jsnum \<Rightarrow> jsnum \<Rightarrow> jsnum" where
  "double_add x y = round_double (js_add x y)"

definition double_div :: "jsnum \<Rightarrow> jsnum \<Rightarrow> jsnum" where
  "double_div x y = round_double (js_div x y)"

subsection \<open>Scores and their aggregation\<close>

record ScoringParameters =
  fluency :: jsnum
  pronunciation :: jsnum
  grammar :: jsnum
  vocabulary :: jsnum
  comprehension :: jsnum

record SectionScore =
  ss_section :: string
  ss_score :: jsnum
  ss_parameters :: ScoringParameters
  ss_feedback :: string

definition calculateSectionScore :: "ScoringParameters \<Rightarrow> jsnum" where
  "calculateSectionScore p =
     Math_round
       (double_div
          (double_add
             (double_add (double_add (double_add (fluency p) (pronunciation p)) (grammar p))
                (vocabulary p))
             (comprehension p))
          (Fin 5))"

definition calculateOverallScore :: "SectionScore list \<Rightarrow> jsnum" where
  "calculateOverallScore sectionScores =
     (if length sectionScores = 0 then Fin 0
      else
        let total = foldl (\<lambda>sum s. double_add sum (ss_score s)) (Fin 0) sectionScores
        in Math_round (double_div total (num (length sectionScores))))"

definition getScoreFeedback :: "jsnum \<Rightarrow> string" where
  "getScoreFeedback s =
     (if js_ge s (Fin 85)
        then ''Excellent performance! You are very well-prepared for the placement test.''
      else if js_ge s (Fin 75)
        then ''Very good! Your communication skills are strong. Keep practicing to reach excellence.''
      else if js_ge s (Fin 65)
        then ''Good effort! You have solid fundamentals. Focus on improving weak areas.''
      else if js_ge s (Fin 55)
        then ''Fair performance. Dedicate more time to practice and improvement.''
      else ''Keep practicing! Focus on all areas of communication skills.'')"

definition getScoreLevel :: "jsnum \<Rightarrow> string" where
  "getScoreLevel s =
     (if js_ge s (Fin 85) then ''Excellent''
      else if js_ge s (Fin 75) then ''Very Good''
      else if js_ge s (Fin 65) then ''Good''
      else if js_ge s (Fin 55) then ''Fair''
      else ''Needs Improvement'')"

subsection \<open>Strings\<close>

text \<open>
  The character classes of the source's regular expressions, on ISO-8859-1: \<^verbatim>\<open>\s\<close> (which is
  also what \<^verbatim>\<open>trim\<close> removes) is tab, line feed, vertical tab, form feed, carriage return,
  space and the no-break space; \<^verbatim>\<open>\w\<close> is a letter of \<^verbatim>\<open>A-Z\<close> or \<^verbatim>\<open>a-z\<close>, a digit or the
  underscore.
\<close>

definition is_space :: "char \<Rightarrow> bool" where
  "is_space c = (let n = (of_char c :: nat) in (9 \<le> n \<and> n \<le> 13) \<or> n = 32 \<or> n = 160)"

definition is_upper_AZ :: "char \<Rightarrow> bool" where
  "is_upper_AZ c = (let n = (of_char c :: nat) in 65 \<le> n \<and> n \<le> 90)"

definition is_lower_az :: "char \<Rightarrow> bool" where
  "is_lower_az c = (let n = (of_char c :: nat) in 97 \<le> n \<and> n \<le> 122)"

definition is_word :: "char \<Rightarrow> bool" where
  "is_word c =
     (let n = (of_char c :: nat)
      in (48 \<le> n \<and> n \<le> 57) \<or> (65 \<le> n \<and> n \<le> 90) \<or> n = 95 \<or> (97 \<le> n \<and> n \<le> 122))"

definition is_sentence_end :: "char \<Rightarrow> bool" where
  "is_sentence_end c = (c = CHR ''.'' \<or> c = CHR ''!'' \<or> c = CHR ''?'')"

text \<open>
  \<^verbatim>\<open>toLowerCase\<close>: the letters \<^verbatim>\<open>A-Z\<close> and the accented capitals 192 to 222 (but not the
  multiplication sign 215) move up by 32.
\<close>

definition toLowerCase_char :: "char \<Rightarrow> char" where
  "toLowerCase_char c =
     (let n = (of_char c :: nat)
      in if (65 \<le> n \<and> n \<le> 90) \<or> (192 \<le> n \<and> n \<le> 222 \<and> n \<noteq> 215)
         then char_of (n + 32) else c)"

definition toLowerCase :: "string \<Rightarrow> string" where
  "toLowerCase s = map toLowerCase_char s"

definition trim :: "string \<Rightarrow> string" where
  "trim s = rev (dropWhile is_space (rev (dropWhile is_space s)))"

text \<open>
  \<^verbatim>\<open>s.split(/[...]+/)\<close> for a character class: the pieces between the maximal runs of
  separator characters. A separator at the start or at the end leaves an empty first or last
  piece, and the empty string splits into one empty piece. \<open>split_scan\<close> reads the string
  from the left with the current piece \<open>cur\<close>; \<open>insep\<close> says that the last character was a
  separator.
\<close>

fun split_scan :: "(char \<Rightarrow> bool) \<Rightarrow> bool \<Rightarrow> string \<Rightarrow> string \<Rightarrow> string list" where
  "split_scan sep insep cur [] = [cur]"
| "split_scan sep insep cur (c # cs) =
     (if sep c then (if insep then split_scan sep True [] cs else cur # split_scan sep True [] cs)
      else split_scan sep False (cur @ [c]) cs)"

definition split_on :: "(char \<Rightarrow> bool) \<Rightarrow> string \<Rightarrow> string list" where
  "split_on sep s = split_scan sep False [] s"

text \<open>\<^verbatim>\<open>s.split(/[.!?]+/).filter(s => s.trim().length > 0)\<close>\<close>

definition split_sentences :: "string \<Rightarrow> string list" where
  "split_sentences s = filter (\<lambda>p. length (trim p) > 0) (split_on is_sentence_end s)"

text \<open>\<^verbatim>\<open>s.split(/\s+/)\<close>\<close>

definition split_whitespace :: "string \<Rightarrow> string list" where
  "split_whitespace s = split_on is_space s"

fun starts_with :: "string \<Rightarrow> string \<Rightarrow> bool" where
  "starts_with s [] = True"
| "starts_with [] (p # ps) = False"
| "starts_with (c # cs) (p # ps) = (c = p \<and> starts_with cs ps)"

text \<open>\<^verbatim>\<open>s.includes(sub)\<close>: \<open>sub\<close> occurs in \<open>s\<close> as a substring.\<close>

fun str_includes :: "string \<Rightarrow> string \<Rightarrow> bool" where
  "str_includes [] sub = (sub = [])"
| "str_includes (c # cs) sub = (starts_with (c # cs) sub \<or> str_includes cs sub)"

text \<open>A regular expression \<^verbatim>\<open>/a|b|c/\<close> of plain alternatives, tested on a string.\<close>

definition test_any :: "string list \<Rightarrow> string \<Rightarrow> bool" where
  "test_any alts s = list_ex (\<lambda>a. str_includes s a) alts"

subsection \<open>Regular expressions with word boundaries\<close>

text \<open>
  The expressions \<^verbatim>\<open>/\b(a|b|c)\b/i\<close> of the source. \<^verbatim>\<open>\b\<close> holds between two positions when
  exactly one of the neighbouring characters is a word character (the outside of the string
  is not one). At a position the alternatives are tried in order; an alternative matches when
  its characters agree with the text up to case and a boundary follows it.
\<close>

fun is_word_opt :: "char option \<Rightarrow> bool" where
  "is_word_opt None = False"
| "is_word_opt (Some c) = is_word c"

fun first_char :: "string \<Rightarrow> char option" where
  "first_char [] = None"
| "first_char (c # cs) = Some c"

definition word_boundary :: "char option \<Rightarrow> string \<Rightarrow> bool" where
  "word_boundary prev rest = (is_word_opt prev \<noteq> is_word_opt (first_char rest))"

text \<open>
  \<open>match_ci p prev s\<close> consumes the pattern text \<open>p\<close> from \<open>s\<close>, ignoring case; it returns
  the last character consumed (or \<open>prev\<close>) and the rest of \<open>s\<close>.
\<close>

fun match_ci :: "string \<Rightarrow> char option \<Rightarrow> string \<Rightarrow> (char option \<times> string) option" where
  "match_ci [] prev s = Some (prev, s)"
| "match_ci (p # ps) prev [] = None"
| "match_ci (p # ps) prev (c # cs) =
     (if toLowerCase_char c = toLowerCase_char p then match_ci ps (Some c) cs else None)"

definition match_alt :: "string \<Rightarrow> char option \<Rightarrow> string \<Rightarrow> nat option" where
  "match_alt p prev s =
     (if word_boundary prev s then
        (case match_ci p prev s of
           None \<Rightarrow> None
         | Some (l, rest) \<Rightarrow> if word_boundary l rest then Some (length p) else None)
      else None)"

fun first_alt :: "string list \<Rightarrow> char option \<Rightarrow> string \<Rightarrow> nat option" where
  "first_alt [] prev s = None"
| "first_alt (p # ps) prev s =
     (case match_alt p prev s of Some n \<Rightarrow> Some n | None \<Rightarrow> first_alt ps prev s)"

text \<open>\<^verbatim>\<open>regex.test(s)\<close>: some position of \<open>s\<close> matches.\<close>

fun re_search :: "string list \<Rightarrow> char option \<Rightarrow> string \<Rightarrow> bool" where
  "re_search alts prev [] = False"
| "re_search alts prev (c # cs) = (first_alt alts prev (c # cs) \<noteq> None \<or> re_search alts (Some c) cs)"

definition re_test :: "string list \<Rightarrow> string \<Rightarrow> bool" where
  "re_test alts s = re_search alts None s"

text \<open>
  \<^verbatim>\<open>s.match(regex)\<close> with the \<^verbatim>\<open>g\<close> flag: the matches from left to right, each search starting
  where the last match ended; only their number is used. \<open>skip\<close> counts the characters of
  the current match still to be passed.
\<close>

fun re_scan :: "string list \<Rightarrow> char option \<Rightarrow> nat \<Rightarrow> string \<Rightarrow> nat" where
  "re_scan alts prev skip [] = 0"
| "re_scan alts prev skip (c # cs) =
     (if skip > 0 then re_scan alts (Some c) (skip - 1) cs
      else
        (case first_alt alts prev (c # cs) of
           Some n \<Rightarrow> 1 + re_scan alts (Some c) (n - 1) cs
         | None \<Rightarrow> re_scan alts (Some c) 0 cs))"

definition re_match_count :: "string list \<Rightarrow> string \<Rightarrow> nat" where
  "re_match_count alts s = re_scan alts None 0 s"

text \<open>
  \<^verbatim>\<open>s.match(/\b[a-z]+\b/g) || []\<close>. A match starts and ends at a word boundary and holds
  letters \<^verbatim>\<open>a-z\<close> only, so the matches are the maximal runs of word characters that consist
  of such letters: a run with a digit, an underscore or a capital in it gives no match,
  since no boundary lies inside a run.
\<close>

definition match_lower_words :: "string \<Rightarrow> string list" where
  "match_lower_words s =
     filter (list_all is_lower_az)
       (filter (\<lambda>w. w \<noteq> []) (split_on (\<lambda>c. \<not> is_word c) s))"

subsection \<open>The grammar analyser\<close>

record GrammarAnalysis =
  g_score :: int
  g_errors :: "string list"
  g_suggestions :: "string list"

text \<open>
  The catalogue of common errors: the text between the two \<^verbatim>\<open>\b\<close> of the pattern (matched
  without regard to case), the error message and the penalty.
\<close>

definition commonErrors :: "(string \<times> string \<times> int) list" where
  \<open>commonErrors =
     [(''i am going to went'', ''Incorrect verb tense'', 10),
      (''he don't'', ''Subject-verb disagreement'', 8),
      (''she don't'', ''Subject-verb disagreement'', 8),
      (''it don't'', ''Subject-verb disagreement'', 8),
      (''much people'', ''Use "many people" not "much people"'', 6),
      (''less people'', ''Use "fewer people" not "less people"'', 6),
      (''more better'', ''Use "better" not "more better"'', 6),
      (''most best'', ''Use "best" not "most best"'', 6),
      (''can able to'', ''Use either "can" or "able to"'', 5),
      (''would of'', ''Use "would have" not "would of"'', 8),
      (''could of'', ''Use "could have" not "could of"'', 8),
      (''should of'', ''Use "should have" not "should of"'', 8)]\<close>

definition grammar_conjunctions :: "string list" where
  "grammar_conjunctions =
     [''and'', ''but'', ''because'', ''although'', ''however'', ''therefore'', ''moreover'',
      ''furthermore'']"

text \<open>\<^verbatim>\<open>/^[A-Z]/.test(s)\<close> and \<^verbatim>\<open>/[.!?]$/.test(s)\<close>\<close>

fun starts_with_capital :: "string \<Rightarrow> bool" where
  "starts_with_capital [] = False"
| "starts_with_capital (c # cs) = is_upper_AZ c"

definition ends_with_punctuation :: "string \<Rightarrow> bool" where
  "ends_with_punctuation s = (s \<noteq> [] \<and> is_sentence_end (last s))"

text \<open>
  The analyser threads the score, the errors and the suggestions through five checks, in
  the order of the source; each check is a function on that state.
\<close>

definition check_capitalization :: "string \<Rightarrow> GrammarAnalysis \<Rightarrow> GrammarAnalysis" where
  "check_capitalization text st =
     (if \<not> starts_with_capital (trim text)
      then \<lparr>g_score = g_score st - 5,
            g_errors = g_errors st @ [''Missing capital letter at start''],
            g_suggestions = g_suggestions st @ [''Start sentences with capital letters'']\<rparr>
      else st)"

definition check_ending_punctuation :: "string \<Rightarrow> GrammarAnalysis \<Rightarrow> GrammarAnalysis" where
  "check_ending_punctuation text st =
     (if \<not> ends_with_punctuation (trim text)
      then \<lparr>g_score = g_score st - 5,
            g_errors = g_errors st @ [''Missing ending punctuation''],
            g_suggestions = g_suggestions st @ [''End sentences with proper punctuation'']\<rparr>
      else st)"

definition pattern_matches :: "string \<Rightarrow> string \<times> string \<times> int \<Rightarrow> bool" where
  "pattern_matches text e = re_test [fst e] text"

definition apply_common_error :: "string \<Rightarrow> string \<times> string \<times> int \<Rightarrow> GrammarAnalysis \<Rightarrow> GrammarAnalysis" where
  "apply_common_error text e st =
     (if pattern_matches text e
      then st\<lparr>g_errors := g_errors st @ [fst (snd e)], g_score := g_score st - snd (snd e)\<rparr>
      else st)"

definition check_common_errors :: "string \<Rightarrow> GrammarAnalysis \<Rightarrow> GrammarAnalysis" where
  "check_common_errors text st = fold (apply_common_error text) commonErrors st"

definition check_sentence_structure :: "string \<Rightarrow> GrammarAnalysis \<Rightarrow> GrammarAnalysis" where
  "check_sentence_structure text st =
     (let sentences = split_sentences text;
          words = filter (\<lambda>w. length w > 0) (split_whitespace (toLowerCase text));
          avgWordsPerSentence = js_div (num (length words)) (num (max (length sentences) 1))
      in if js_less avgWordsPerSentence (Fin 5)
         then st\<lparr>g_suggestions := g_suggestions st @ [''Try using longer, more complex sentences''],
                 g_score := g_score st - 5\<rparr>
         else if js_greater avgWordsPerSentence (Fin 25)
         then st\<lparr>g_suggestions := g_suggestions st @ [''Break down very long sentences for clarity''],
                 g_score := g_score st - 3\<rparr>
         else st)"

definition check_conjunctions :: "string \<Rightarrow> GrammarAnalysis \<Rightarrow> GrammarAnalysis" where
  "check_conjunctions text st =
     (let hasConjunctions = list_ex (\<lambda>conj. str_includes (toLowerCase text) conj) grammar_conjunctions
      in if hasConjunctions then st\<lparr>g_score := g_score st + 5\<rparr> else st)"

definition analyzeGrammarFree :: "string \<Rightarrow> GrammarAnalysis" where
  "analyzeGrammarFree text =
     (let st = check_conjunctions text
                 (check_sentence_structure text
                    (check_common_errors text
                       (check_ending_punctuation text
                          (check_capitalization text
                             \<lparr>g_score = 85, g_errors = [], g_suggestions = []\<rparr>))))
      in st\<lparr>g_score := max 0 (min 100 (g_score st))\<rparr>)"

text \<open>
  The quantities the specification names: the words of the analyser, its average of
  words per sentence (with the divisor the source uses, at least 1), and whether a listed
  conjunction occurs in the text.
\<close>

definition grammar_words :: "string \<Rightarrow> string list" where
  "grammar_words text = filter (\<lambda>w. length w > 0) (split_whitespace (toLowerCase text))"

definition wordsPerSentence :: "string \<Rightarrow> real" where
  "wordsPerSentence text =
     real (length (grammar_words text)) / real (max (length (split_sentences text)) 1)"

definition has_conjunction :: "string \<Rightarrow> bool" where
  "has_conjunction text = list_ex (\<lambda>conj. str_includes (toLowerCase text) conj) grammar_conjunctions"

subsection \<open>The vocabulary analyser\<close>

definition academicWords :: "string list" where
  "academicWords =
     [''analyze'', ''concept'', ''theory'', ''research'', ''study'', ''examine'', ''investigate'',
      ''demonstrate'', ''illustrate'', ''significant'', ''substantial'', ''comprehensive'',
      ''methodology'', ''hypothesis'', ''conclusion'', ''evidence'', ''criteria'', ''assessment'']"

definition isAcademicWord :: "string \<Rightarrow> bool" where
  "isAcademicWord w = (w \<in> set academicWords)"

definition professionalWords :: "string list" where
  "professionalWords =
     [''experience'', ''responsibility'', ''management'', ''leadership'', ''collaboration'',
      ''communication'', ''development'', ''implementation'', ''strategy'', ''objective'',
      ''achievement'', ''performance'', ''efficiency'', ''productivity'', ''innovation'',
      ''solution'', ''challenge'', ''opportunity'', ''professional'', ''expertise'']"

definition isProfessionalWord :: "string \<Rightarrow> bool" where
  "isProfessionalWord w = (w \<in> set professionalWords)"

text \<open>
  \<^verbatim>\<open>findWordRepetitions\<close> counts in a plain object \<^verbatim>\<open>wordCount = {}\<close>. Reading a key that
  the object does not own finds the property of that name on \<^verbatim>\<open>Object.prototype\<close>, if there
  is one: a function (an object, for \<^verbatim>\<open>__proto__\<close>), which is truthy, so that
  \<^verbatim>\<open>(wordCount[word] || 0) + 1\<close> is then the concatenation of its text with \<^verbatim>\<open>"1"\<close>, a string.
  A property holds a number or such a string. The object's own keys are kept in the order
  of their first assignment (no word of letters is an array index).
\<close>

datatype propval = Number nat | Text

definition Object_prototype_keys :: "string list" where
  "Object_prototype_keys =
     [''constructor'', ''__defineGetter__'', ''__defineSetter__'', ''hasOwnProperty'',
      ''__lookupGetter__'', ''__lookupSetter__'', ''isPrototypeOf'', ''propertyIsEnumerable'',
      ''toString'', ''valueOf'', ''__proto__'', ''toLocaleString'']"

text \<open>\<^verbatim>\<open>(wordCount[word] || 0) + 1\<close>\<close>

definition incremented :: "(string \<times> propval) list \<Rightarrow> string \<Rightarrow> propval" where
  "incremented wordCount w =
     (case map_of wordCount w of
        Some (Number n) \<Rightarrow> Number (n + 1)
      | Some Text \<Rightarrow> Text
      | None \<Rightarrow> if w \<in> set Object_prototype_keys then Text else Number 1)"

text \<open>
  \<^verbatim>\<open>wordCount[word] = v\<close>; an assignment to \<^verbatim>\<open>__proto__\<close> of a value that is not an object
  changes nothing.
\<close>

definition assign :: "(string \<times> propval) list \<Rightarrow> string \<Rightarrow> propval \<Rightarrow> (string \<times> propval) list" where
  "assign wordCount w v = (if w = ''__proto__'' then wordCount else AList.update w v wordCount)"

text \<open>\<^verbatim>\<open>v > 2\<close>: a string that is not the text of a number compares as NaN.\<close>

fun exceeds_two :: "propval \<Rightarrow> bool" where
  "exceeds_two (Number n) = (n > 2)"
| "exceeds_two Text = False"

text \<open>The body of the loop \<^verbatim>\<open>words.forEach(word => ...)\<close>.\<close>

definition count_step :: "string \<Rightarrow> (string \<times> propval) list \<Rightarrow> (string \<times> propval) list" where
  "count_step w wordCount =
     (if length w > 3 then assign wordCount w (incremented wordCount w) else wordCount)"

definition findWordRepetitions :: "string list \<Rightarrow> string list" where
  "findWordRepetitions words =
     (let wordCount = fold count_step words []
      in map fst (filter (\<lambda>(w, v). exceeds_two v) wordCount))"

text \<open>
  What the counter holds for a word \<open>w\<close> after the words \<open>xs\<close>: nothing for a short or
  absent word, a string for a word that names an inherited property, and the number of
  occurrences otherwise.
\<close>

definition counted :: "string list \<Rightarrow> string \<Rightarrow> propval option" where
  "counted xs w =
     (if 3 < length w \<and> w \<in> set xs \<and> w \<noteq> ''__proto__''
      then Some (if w \<in> set Object_prototype_keys then Text else Number (count_list xs w))
      else None)"

record VocabularyMetrics =
  totalWords :: nat
  uniqueWordCount :: nat
  lexicalDiversity :: jsnum
  avgWordLength :: jsnum
  advancedWords :: nat

record VocabularyAnalysis =
  v_score :: int
  v_metrics :: VocabularyMetrics
  v_suggestions :: "string list"

text \<open>
  The score starts at 60; the three bonuses and the repetition penalty are applied to it in
  the order of the source, each a function on the score.
\<close>

definition lexical_diversity_bonus :: "jsnum \<Rightarrow> int \<Rightarrow> int" where
  "lexical_diversity_bonus diversity score =
     (if js_greater diversity (Fin 0.8) then score + 25
      else if js_greater diversity (Fin 0.6) then score + 20
      else if js_greater diversity (Fin 0.4) then score + 15
      else if js_greater diversity (Fin 0.2) then score + 10
      else score)"

definition word_length_bonus :: "jsnum \<Rightarrow> int \<Rightarrow> int" where
  "word_length_bonus avgLength score =
     (if js_greater avgLength (Fin 6) then score + 15
      else if js_greater avgLength (Fin 5) then score + 10
      else if js_greater avgLength (Fin 4) then score + 5
      else score)"

definition advanced_vocabulary_bonus :: "jsnum \<Rightarrow> int \<Rightarrow> int" where
  "advanced_vocabulary_bonus advancedRatio score =
     (if js_greater advancedRatio (Fin 0.3) then score + 15
      else if js_greater advancedRatio (Fin 0.2) then score + 10
      else if js_greater advancedRatio (Fin 0.1) then score + 5
      else score)"

definition repetition_penalty :: "string list \<Rightarrow> int \<Rightarrow> int" where
  "repetition_penalty repetitions score =
     (if length repetitions > 0 then score - int (length repetitions) * 3 else score)"

definition vocabulary_suggestions :: "string list \<Rightarrow> jsnum \<Rightarrow> jsnum \<Rightarrow> string list \<Rightarrow> string list" where
  "vocabulary_suggestions repetitions diversity avgLength advanced =
     (if length repetitions > 0 then [''Avoid repeating the same words too often''] else [])
     @ (if js_less diversity (Fin 0.5) then [''Try using more varied vocabulary''] else [])
     @ (if js_less avgLength (Fin 4.5) then [''Include some longer, more descriptive words''] else [])
     @ (if length advanced = 0 then [''Consider using more sophisticated vocabulary''] else [])"

definition analyzeVocabularyFree :: "string \<Rightarrow> VocabularyAnalysis" where
  "analyzeVocabularyFree text =
     (let words = match_lower_words (toLowerCase text);
          total = length words;
          uniqueCount = length (remdups words);
          diversity = js_div (num uniqueCount) (num (max total 1));
          avgLength = js_div (num (foldl (\<lambda>sum w. sum + length w) 0 words)) (num (max total 1));
          advanced = filter (\<lambda>w. length w \<ge> 7 \<or> isAcademicWord w \<or> isProfessionalWord w) words;
          advancedRatio = js_div (num (length advanced)) (num (max total 1));
          repetitions = findWordRepetitions words;
          score =
            repetition_penalty repetitions
              (advanced_vocabulary_bonus advancedRatio
                 (word_length_bonus avgLength (lexical_diversity_bonus diversity 60)))
      in \<lparr>v_score = max 0 (min 100 score),
          v_metrics = \<lparr>totalWords = total, uniqueWordCount = uniqueCount,
                       lexicalDiversity = diversity, avgWordLength = avgLength,
                       advancedWords = length advanced\<rparr>,
          v_suggestions = vocabulary_suggestions repetitions diversity avgLength advanced\<rparr>)"

text \<open>The words of the vocabulary analyser and its test for an advanced word.\<close>

definition vocabulary_words :: "string \<Rightarrow> string list" where
  "vocabulary_words text = match_lower_words (toLowerCase text)"

definition is_advanced :: "string \<Rightarrow> bool" where
  "is_advanced w = (length w \<ge> 7 \<or> isAcademicWord w \<or> isProfessionalWord w)"

subsection \<open>The content analyser\<close>

text \<open>An optional string argument in a condition: absent and empty are false.\<close>

fun supplied :: "string option \<Rightarrow> bool" where
  "supplied None = False"
| "supplied (Some s) = (s \<noteq> [])"

definition synonymGroups :: "string list list" where
  "synonymGroups =
     [[''good'', ''great'', ''excellent'', ''wonderful'', ''amazing''],
      [''work'', ''job'', ''career'', ''profession'', ''employment''],
      [''learn'', ''study'', ''education'', ''knowledge'', ''training''],
      [''help'', ''assist'', ''support'', ''aid''],
      [''important'', ''significant'', ''crucial'', ''essential'', ''vital''],
      [''company'', ''organization'', ''business'', ''firm'', ''corporation''],
      [''skill'', ''ability'', ''capability'', ''competence'', ''expertise''],
      [''goal'', ''objective'', ''target'', ''aim'', ''purpose'']]"

definition areSynonyms :: "string \<Rightarrow> string \<Rightarrow> bool" where
  "areSynonyms word1 word2 = list_ex (\<lambda>group. word1 \<in> set group \<and> word2 \<in> set group) synonymGroups"

definition concept_matched :: "string list \<Rightarrow> string \<Rightarrow> bool" where
  "concept_matched userWords expectedWord =
     list_ex (\<lambda>userWord. str_includes userWord expectedWord \<or> str_includes expectedWord userWord
                \<or> areSynonyms userWord expectedWord) userWords"

definition countMatchingConcepts :: "string list \<Rightarrow> string list \<Rightarrow> nat" where
  "countMatchingConcepts userWords expectedWords =
     fold (\<lambda>expectedWord matches. if concept_matched userWords expectedWord then matches + 1 else matches)
       expectedWords 0"

definition analyzeCompletenessForSection :: "string \<Rightarrow> string \<Rightarrow> string option \<Rightarrow> int" where
  "analyzeCompletenessForSection text sec question =
     (let words = split_whitespace (toLowerCase text);
          n = length words;
          completeness0 = (60 :: int);
          completeness =
            (if sec = ''A'' then
               (if n \<ge> 8 then completeness0 + 30
                else if n \<ge> 5 then completeness0 + 20
                else if n \<ge> 3 then completeness0 + 10
                else completeness0)
             else if sec = ''B'' then
               (let c1 = (if n \<ge> 25 then completeness0 + 30
                          else if n \<ge> 15 then completeness0 + 20
                          else if n \<ge> 10 then completeness0 + 10
                          else completeness0);
                    c2 = (if test_any [''situation'', ''problem'', ''challenge'', ''experience''] text
                          then c1 + 5 else c1)
                in if test_any [''solution'', ''action'', ''did'', ''decided'', ''resolved''] text
                   then c2 + 5 else c2)
             else if sec = ''G'' then
               (let c1 = (if n \<ge> 50 then completeness0 + 30
                          else if n \<ge> 35 then completeness0 + 20
                          else if n \<ge> 20 then completeness0 + 10
                          else completeness0);
                    sentences = split_sentences text
                in if length sentences \<ge> 4 then c1 + 10 else c1)
             else
               (if n \<ge> 15 then completeness0 + 25
                else if n \<ge> 10 then completeness0 + 15
                else if n \<ge> 5 then completeness0 + 10
                else completeness0))
      in min 100 completeness)"

definition extractKeyPointsFree :: "string list \<Rightarrow> string list" where
  "extractKeyPointsFree sentences =
     take 3 (map trim (filter (\<lambda>sentence. length (trim sentence) > 15) sentences))"

definition transitionWords :: "string list" where
  "transitionWords =
     [''first'', ''second'', ''then'', ''next'', ''finally'', ''however'', ''therefore'', ''because'',
      ''although'']"

record ContentAnalysis =
  relevance :: jsnum
  completeness :: int
  coherence :: int
  keyPoints :: "string list"

definition analyzeContentFree ::
  "string \<Rightarrow> string option \<Rightarrow> string option \<Rightarrow> string option \<Rightarrow> ContentAnalysis" where
  "analyzeContentFree text expectedAnswer question sec =
     (let words = split_whitespace (toLowerCase text);
          sentences = split_sentences text;
          relevance1 =
            (if supplied expectedAnswer then
               (let expectedWords = split_whitespace (toLowerCase (the expectedAnswer));
                    matchingConcepts = countMatchingConcepts words expectedWords
                in Math_min (Fin 100)
                     (js_add (Fin 50)
                        (js_mul (js_div (num matchingConcepts) (num (length expectedWords))) (Fin 50))))
             else Fin 70);
          completeness1 =
            (if supplied sec then analyzeCompletenessForSection text (the sec) question
             else
               (let n = length words;
                    c1 = (if n > 20 then 60 + 25
                          else if n > 15 then 60 + 20
                          else if n > 10 then 60 + 15
                          else if n > 5 then 60 + 10
                          else 60)
                in if length sentences > 2 then c1 + 15 else c1));
          hasTransitions = list_ex (\<lambda>word. str_includes (toLowerCase text) word) transitionWords;
          coherence1 = (if hasTransitions then 70 + 15 else 70);
          hasExamples = test_any [''for example'', ''such as'', ''like'', ''including''] (toLowerCase text);
          coherence2 = (if hasExamples then coherence1 + 10 else coherence1)
      in \<lparr>relevance = Math_min (Fin 100) relevance1,
          completeness = min 100 completeness1,
          coherence = min 100 coherence2,
          keyPoints = extractKeyPointsFree sentences\<rparr>)"

text \<open>
  The quantities the specification names for the relevance: the words of the transcript,
  the tokens of the hint, and the share of the hint's tokens that the transcript matches.
\<close>

definition transcript_words :: "string \<Rightarrow> string list" where
  "transcript_words text = split_whitespace (toLowerCase text)"

definition hint_tokens :: "string \<Rightarrow> string list" where
  "hint_tokens hint = split_whitespace (toLowerCase hint)"

definition matched_ratio :: "string \<Rightarrow> string \<Rightarrow> real" where
  "matched_ratio text hint =
     real (length (filter (concept_matched (transcript_words text)) (hint_tokens hint)))
       / real (length (hint_tokens hint))"

subsection \<open>The sentiment analyser\<close>

definition positiveWords :: "string list" where
  "positiveWords =
     [''good'', ''great'', ''excellent'', ''amazing'', ''wonderful'', ''fantastic'', ''love'', ''like'',
      ''enjoy'', ''happy'', ''excited'', ''passionate'', ''confident'', ''successful'', ''achieve'',
      ''accomplish'', ''opportunity'', ''growth'', ''development'', ''improvement'', ''positive'',
      ''optimistic'']"

definition negativeWords :: "string list" where
  "negativeWords =
     [''bad'', ''terrible'', ''awful'', ''hate'', ''dislike'', ''horrible'', ''worst'', ''difficult'',
      ''problem'', ''challenge'', ''struggle'', ''fail'', ''failure'', ''disappointed'', ''frustrated'',
      ''worried'', ''concerned'', ''negative'', ''pessimistic'', ''unfortunate'', ''regret'']"

record SentimentAnalysis =
  sentiment :: string
  confidence :: jsnum
  tone :: string

definition analyzeSentimentFree :: "string \<Rightarrow> SentimentAnalysis" where
  "analyzeSentimentFree text =
     (let words = split_whitespace (toLowerCase text);
          positiveCount = length (filter (\<lambda>word. word \<in> set positiveWords) words);
          negativeCount = length (filter (\<lambda>word. word \<in> set negativeWords) words)
      in if positiveCount > negativeCount then
           \<lparr>sentiment = ''positive'',
            confidence =
              Math_min (Fin 0.9)
                (js_add (Fin 0.5)
                   (js_mul (js_div (num (positiveCount - negativeCount)) (num (length words))) (Fin 2))),
            tone = (if positiveCount > negativeCount * 2 then ''enthusiastic'' else ''positive'')\<rparr>
         else if negativeCount > positiveCount then
           \<lparr>sentiment = ''negative'',
            confidence =
              Math_min (Fin 0.9)
                (js_add (Fin 0.5)
                   (js_mul (js_div (num (negativeCount - positiveCount)) (num (length words))) (Fin 2))),
            tone = (if negativeCount > positiveCount * 2 then ''pessimistic'' else ''cautious'')\<rparr>
         else \<lparr>sentiment = ''neutral'', confidence = Fin 0.5, tone = ''neutral''\<rparr>)"

subsection \<open>The text analysis and the estimates from text\<close>

record TextAnalysis =
  ta_grammar :: GrammarAnalysis
  ta_vocabulary :: VocabularyAnalysis
  ta_content :: ContentAnalysis
  ta_sentiment :: SentimentAnalysis

definition intelligentTextAnalysis ::
  "string \<Rightarrow> string option \<Rightarrow> string option \<Rightarrow> string option \<Rightarrow> TextAnalysis" where
  "intelligentTextAnalysis text expectedAnswer question sec =
     \<lparr>ta_grammar = analyzeGrammarFree text,
      ta_vocabulary = analyzeVocabularyFree text,
      ta_content = analyzeContentFree text expectedAnswer question sec,
      ta_sentiment = analyzeSentimentFree text\<rparr>"

definition enhancedGrammarScore :: "string \<Rightarrow> int" where
  "enhancedGrammarScore text = g_score (analyzeGrammarFree text)"

definition enhancedVocabularyScore :: "string \<Rightarrow> int" where
  "enhancedVocabularyScore text = v_score (analyzeVocabularyFree text)"

definition enhancedComprehensionScore :: "string \<Rightarrow> string option \<Rightarrow> jsnum" where
  "enhancedComprehensionScore text expectedAnswer =
     relevance (analyzeContentFree text expectedAnswer None None)"

definition estimatePronunciationFromText :: "string \<Rightarrow> int" where
  "estimatePronunciationFromText text =
     (let words = split_on is_space text;
          score0 = (75 :: int);
          score1 = (if length words > 15 then score0 + 10
                    else if length words > 10 then score0 + 5
                    else score0);
          complexWords = filter (\<lambda>word. length word > 6) words;
          score2 = (if length complexWords > 0 then score1 + 5 else score1);
          profWords = filter (\<lambda>word. isProfessionalWord (toLowerCase word)
                                       \<or> isAcademicWord (toLowerCase word)) words;
          score3 = (if length profWords > 0 then score2 + 5 else score2)
      in min 100 score3)"

definition fillerWords :: "string list" where
  "fillerWords =
     [''um'', ''uh'', ''like'', ''you know'', ''basically'', ''actually'', ''sort of'', ''kind of'']"

definition fluency_conjunctions :: "string list" where
  "fluency_conjunctions =
     [''and'', ''but'', ''because'', ''although'', ''however'', ''therefore'', ''moreover'',
      ''furthermore'', ''while'', ''since'']"

definition estimateFluencyFromText :: "string \<Rightarrow> int" where
  "estimateFluencyFromText text =
     (let words = split_on is_space text;
          sentences = split_sentences text;
          score0 = (70 :: int);
          score1 = (if length words > 20 then score0 + 15
                    else if length words > 15 then score0 + 10
                    else if length words > 10 then score0 + 5
                    else score0);
          fillerMatches = re_match_count fillerWords text;
          score2 = (if fillerMatches > 0 then score1 - int fillerMatches * 3 else score1);
          avgWordsPerSentence = js_div (num (length words)) (num (max (length sentences) 1));
          score3 = (if js_greater avgWordsPerSentence (Fin 12) then score2 + 10
                    else if js_greater avgWordsPerSentence (Fin 8) then score2 + 5
                    else score2);
          conjunctionMatches = re_match_count fluency_conjunctions text;
          score4 = (if conjunctionMatches > 0 then score3 + min 10 (int conjunctionMatches * 2)
                    else score3)
      in min 100 (max 40 score4))"

subsection \<open>The audio metric estimator\<close>

text \<open>
  A recording reaches the engine as a \<^verbatim>\<open>Blob\<close> that the browser decodes
  (\<^verbatim>\<open>decodeAudioData\<close>): the decoding fails, or it yields an \<^verbatim>\<open>AudioBuffer\<close>, of which the
  engine reads the samples of channel 0, the sample rate and the duration.
\<close>

record AudioBuffer =
  b_channelData :: "real list"
  b_sampleRate :: real
  b_duration :: real

datatype Blob = Undecodable | Decodable AudioBuffer

text \<open>
  The exceptions of the audio analysis. The decoding of a recording that holds no audio is
  rejected (\<^verbatim>\<open>EncodingError\<close>). An array holds at most \<open>2\<^sup>3\<^sup>2 - 1\<close> elements, and a
  \<^verbatim>\<open>push\<close> onto an array of that length raises \<^verbatim>\<open>RangeError: Invalid array length\<close>; an
  engine raises the same exception earlier when the storage of the array cannot grow.
\<close>

datatype js_error = EncodingError | RangeError

definition array_length_limit :: nat where
  "array_length_limit = 2 ^ 32 - 1"

definition blobToAudioBuffer :: "Blob \<Rightarrow> js_error + AudioBuffer" where
  "blobToAudioBuffer blob =
     (case blob of Undecodable \<Rightarrow> Inl EncodingError | Decodable audioBuffer \<Rightarrow> Inr audioBuffer)"

record AudioMetrics =
  speakingRate :: jsnum
  pauseRatio :: jsnum
  volumeVariation :: jsnum
  clarity :: jsnum
  m_duration :: real

text \<open>
  \<^verbatim>\<open>a.slice(start, end)\<close>: a negative index counts from the end, and both indices are
  clamped to the array.
\<close>

definition slice_index :: "nat \<Rightarrow> int \<Rightarrow> nat" where
  "slice_index len k = (if k < 0 then nat (max (int len + k) 0) else nat (min k (int len)))"

definition slice :: "'a list \<Rightarrow> int \<Rightarrow> int \<Rightarrow> 'a list" where
  "slice xs start end =
     (let from = slice_index (length xs) start;
          to = slice_index (length xs) end
      in take (to - from) (drop from xs))"

definition calculateRMS :: "real list \<Rightarrow> jsnum" where
  "calculateRMS samples =
     (let sum = foldl (\<lambda>acc sample. acc + sample * sample) 0 samples
      in Math_sqrt (js_div (Fin sum) (num (length samples))))"

text \<open>
  The loop of \<^verbatim>\<open>estimateWordCount\<close>:
  \<^verbatim>\<open>for (let i = 0; i < channelData.length - windowSize; i += windowSize)\<close>.
\<close>

partial_function (option) estimateWordCount_loop :: "real list \<Rightarrow> int \<Rightarrow> int \<Rightarrow> nat \<Rightarrow> nat option" where
  "estimateWordCount_loop channelData windowSize i wordBoundaries =
     (if i < int (length channelData) - windowSize then
        estimateWordCount_loop channelData windowSize (i + windowSize)
          (if js_greater (calculateRMS (slice channelData i (i + windowSize))) (Fin 0.02)
              \<and> js_less (calculateRMS (slice channelData (i + windowSize) (i + windowSize * 2)))
                    (Fin (0.02 * 0.5))
           then wordBoundaries + 1 else wordBoundaries)
      else Some wordBoundaries)"

definition estimateWordCount :: "real list \<Rightarrow> real \<Rightarrow> nat option" where
  "estimateWordCount channelData rate =
     (case estimateWordCount_loop channelData \<lfloor>rate * 0.1\<rfloor> 0 0 of
        None \<Rightarrow> None
      | Some wordBoundaries \<Rightarrow> Some (max 1 wordBoundaries))"

text \<open>
  The loop of \<^verbatim>\<open>calculateVolumeVariation\<close>:
  \<^verbatim>\<open>for (let i = 0; i < channelData.length; i += windowSize)\<close>, which appends the volume of
  one window to \<^verbatim>\<open>volumes\<close> in each round; the \<^verbatim>\<open>push\<close> raises \<^verbatim>\<open>RangeError\<close> when
  \<^verbatim>\<open>volumes\<close> has reached the largest length of an array. The square \<^verbatim>\<open>Math.pow(x, 2)\<close> of
  the variance is the product of \<open>x\<close> with itself.
\<close>

function volumes_loop :: "real list \<Rightarrow> nat \<Rightarrow> nat \<Rightarrow> jsnum list \<Rightarrow> js_error + jsnum list" where
  "volumes_loop channelData windowSize i volumes =
     (if i < length channelData then
        if length volumes < array_length_limit then
          volumes_loop channelData windowSize (i + windowSize)
            (volumes @ [calculateRMS (slice channelData (int i) (int i + int windowSize))])
        else Inl RangeError
      else Inr volumes)"
  by pat_completeness auto

termination
  by (relation "measure (\<lambda>(channelData, windowSize, i, volumes). array_length_limit - length volumes)")
    auto

declare volumes_loop.simps [simp del]

definition calculateVolumeVariation :: "real list \<Rightarrow> js_error + jsnum" where
  "calculateVolumeVariation channelData =
     (case volumes_loop channelData (length channelData div 20) 0 [] of
        Inl e \<Rightarrow> Inl e
      | Inr volumes \<Rightarrow>
          (let mean = js_div (foldl js_add (Fin 0) volumes) (num (length volumes));
               variance =
                 js_div
                   (foldl (\<lambda>sum vol. js_add sum (js_mul (js_sub vol mean) (js_sub vol mean)))
                      (Fin 0) volumes)
                   (num (length volumes))
           in Inr (Math_sqrt variance)))"

text \<open>
  The loop of \<^verbatim>\<open>performBasicFFTAnalysis\<close> over the samples of the signal, \<open>i\<close> the index of
  the next one. The loop divides by the length of the signal only when the signal has a
  sample, and the ratio is taken only when the total energy is positive.
\<close>

fun fft_loop :: "nat \<Rightarrow> real \<Rightarrow> nat \<Rightarrow> real list \<Rightarrow> real \<times> real \<Rightarrow> real \<times> real" where
  "fft_loop len rate i [] (highFreqEnergy, totalEnergy) = (highFreqEnergy, totalEnergy)"
| "fft_loop len rate i (x # xs) (highFreqEnergy, totalEnergy) =
     (let energy = x * x;
          freq = (real i / real len) * (rate / 2)
      in fft_loop len rate (i + 1) xs
           (if freq > 2000 \<and> freq < 8000 then highFreqEnergy + energy else highFreqEnergy,
            totalEnergy + energy))"

definition performBasicFFTAnalysis :: "real list \<Rightarrow> real \<Rightarrow> real" where
  "performBasicFFTAnalysis signal rate =
     (case fft_loop (length signal) rate 0 signal (0, 0) of
        (highFreqEnergy, totalEnergy) \<Rightarrow>
          (let clarityRatio = (if totalEnergy > 0 then highFreqEnergy / totalEnergy else 0)
           in 60 + clarityRatio * 40))"

definition estimateClarity :: "real list \<Rightarrow> real \<Rightarrow> real" where
  "estimateClarity channelData rate =
     min 100 (max 50 (performBasicFFTAnalysis (slice channelData 0 2048) rate))"

text \<open>
  \<^verbatim>\<open>extractAudioMetrics\<close> estimates the word count first, which may not return, and lets the
  exception of \<^verbatim>\<open>calculateVolumeVariation\<close> pass to its caller.
\<close>

definition extractAudioMetrics :: "AudioBuffer \<Rightarrow> (js_error + AudioMetrics) option" where
  "extractAudioMetrics audioBuffer =
     (case estimateWordCount (b_channelData audioBuffer) (b_sampleRate audioBuffer) of
        None \<Rightarrow> None
      | Some estimatedWords \<Rightarrow>
          (let silentSamples = length (filter (\<lambda>sample. \<bar>sample\<bar> < 0.01) (b_channelData audioBuffer))
           in case calculateVolumeVariation (b_channelData audioBuffer) of
                Inl e \<Rightarrow> Some (Inl e)
              | Inr variation \<Rightarrow>
                  Some (Inr
                    \<lparr>speakingRate =
                       js_mul (js_div (num estimatedWords) (Fin (b_duration audioBuffer))) (Fin 60),
                     pauseRatio = js_div (num silentSamples) (num (length (b_channelData audioBuffer))),
                     volumeVariation = variation,
                     clarity = Fin (estimateClarity (b_channelData audioBuffer) (b_sampleRate audioBuffer)),
                     m_duration = b_duration audioBuffer\<rparr>)))"

text \<open>
  \<^verbatim>\<open>freeAudioAnalysis\<close> runs the decoding and \<^verbatim>\<open>extractAudioMetrics\<close> in one \<^verbatim>\<open>try\<close> block:
  whatever exception either raises is caught and the result is \<^verbatim>\<open>null\<close> (the inner \<open>None\<close>).
  The outer \<open>None\<close> is an analysis that does not return.
\<close>

definition freeAudioAnalysis :: "Blob \<Rightarrow> AudioMetrics option option" where
  "freeAudioAnalysis audioBlob =
     (case blobToAudioBuffer audioBlob of
        Inl e \<Rightarrow> Some None
      | Inr audioBuffer \<Rightarrow>
          (case extractAudioMetrics audioBuffer of
             None \<Rightarrow> None
           | Some (Inl e) \<Rightarrow> Some None
           | Some (Inr metrics) \<Rightarrow> Some (Some metrics)))"

subsection \<open>The score combiner and the entry point\<close>

definition calculateFluencyFromRate :: "jsnum \<Rightarrow> jsnum \<Rightarrow> int" where
  "calculateFluencyFromRate rate pause =
     (let fluency0 =
            (if js_ge rate (Fin 140) \<and> js_le rate (Fin 180) then 90
             else if js_ge rate (Fin 120) \<and> js_le rate (Fin 200) then 80
             else if js_ge rate (Fin 100) \<and> js_le rate (Fin 220) then 70
             else (60 :: int));
          fluency1 =
            (if js_greater pause (Fin 0.1) \<and> js_less pause (Fin 0.3) then fluency0 + 5
             else if js_greater pause (Fin 0.4) then fluency0 - 10
             else fluency0)
      in min 100 fluency1)"

definition of_score :: "int \<Rightarrow> jsnum" where
  "of_score n = Fin (of_int n)"

text \<open>
  \<^verbatim>\<open>textResult\<close> is the settled text analysis, or \<^verbatim>\<open>null\<close> when it was rejected;
  \<^verbatim>\<open>audioResult\<close> is the audio metrics, or \<^verbatim>\<open>null\<close>. \<^verbatim>\<open>a || b\<close> is \<open>b\<close> when \<open>a\<close> is
  missing, zero or NaN.
\<close>

definition combineIntelligentResults ::
  "TextAnalysis option \<Rightarrow> AudioMetrics option \<Rightarrow> string \<Rightarrow> string option \<Rightarrow> ScoringParameters" where
  "combineIntelligentResults textResult audioResult userResponse expectedAnswer =
     (let grammar0 =
            (case textResult of
               Some t \<Rightarrow> if g_score (ta_grammar t) \<noteq> 0 then g_score (ta_grammar t)
                         else enhancedGrammarScore userResponse
             | None \<Rightarrow> enhancedGrammarScore userResponse);
          vocabulary0 =
            (case textResult of
               Some t \<Rightarrow> if v_score (ta_vocabulary t) \<noteq> 0 then v_score (ta_vocabulary t)
                         else enhancedVocabularyScore userResponse
             | None \<Rightarrow> enhancedVocabularyScore userResponse);
          comprehension0 =
            (case textResult of
               Some t \<Rightarrow> if truthy (relevance (ta_content t)) then relevance (ta_content t)
                         else enhancedComprehensionScore userResponse expectedAnswer
             | None \<Rightarrow> enhancedComprehensionScore userResponse expectedAnswer);
          pronunciation0 =
            (case audioResult of
               Some a \<Rightarrow> if truthy (clarity a) then clarity a
                         else of_score (estimatePronunciationFromText userResponse)
             | None \<Rightarrow> of_score (estimatePronunciationFromText userResponse));
          fluency0 =
            (case audioResult of
               Some a \<Rightarrow> if truthy (speakingRate a)
                         then of_score (calculateFluencyFromRate (speakingRate a) (pauseRatio a))
                         else of_score (estimateFluencyFromText userResponse)
             | None \<Rightarrow> of_score (estimateFluencyFromText userResponse))
      in \<lparr>fluency = Math_round fluency0,
          pronunciation = Math_round pronunciation0,
          grammar = Math_round (of_score grammar0),
          vocabulary = Math_round (of_score vocabulary0),
          comprehension = Math_round comprehension0\<rparr>)"

text \<open>\<^verbatim>\<open>audioBlob ? freeAudioAnalysis(audioBlob) : null\<close>\<close>

definition audio_outcome :: "Blob option \<Rightarrow> AudioMetrics option option" where
  "audio_outcome audioBlob =
     (case audioBlob of None \<Rightarrow> Some None | Some b \<Rightarrow> freeAudioAnalysis b)"

text \<open>
  \<^verbatim>\<open>assessResponse\<close> waits for the text analysis and, when a recording is given, for the
  audio analysis (\<^verbatim>\<open>Promise.allSettled\<close>), then combines the two. The text analysis of a
  string raises nothing, so it is always fulfilled, and nothing else in the \<^verbatim>\<open>try\<close> block
  raises: the \<^verbatim>\<open>catch\<close> branch is never entered. The result is \<open>None\<close> when the audio
  analysis does not return.
\<close>

definition assessResponse ::
  "string \<Rightarrow> string \<Rightarrow> Blob option \<Rightarrow> string option \<Rightarrow> string option \<Rightarrow> ScoringParameters option" where
  "assessResponse sec userResponse audioBlob expectedAnswer question =
     (let textResult = Some (intelligentTextAnalysis userResponse expectedAnswer question (Some sec))
      in case audio_outcome audioBlob of
           None \<Rightarrow> None
         | Some audioResult \<Rightarrow>
             Some (combineIntelligentResults textResult audioResult userResponse expectedAnswer))"

text \<open>A score as the data model wants it: an integer from 0 to 100.\<close>

fun is_score :: "jsnum \<Rightarrow> bool" where
  "is_score (Fin a) = (a = of_int \<lfloor>a\<rfloor> \<and> 0 \<le> a \<and> a \<le> 100)"
| "is_score x = False"

definition valid_parameters :: "ScoringParameters \<Rightarrow> bool" where
  "valid_parameters p =
     (is_score (fluency p) \<and> is_score (pronunciation p) \<and> is_score (grammar p)
      \<and> is_score (vocabulary p) \<and> is_score (comprehension p))"

subsection \<open>The fluency table as the specification words it\<close>

text \<open>
  The specification gives the fluency from audio as bands "140--180", "120--200",
  "100--220" for the rate and "0.1--0.3" for the pause ratio. The bands of the rate contain
  their end points; \<open>fluency_as_claimed\<close> reads the band of the pause ratio the same way.
  It is compared with \<open>calculateFluencyFromRate\<close> below.
\<close>

definition fluency_as_claimed :: "real \<Rightarrow> real \<Rightarrow> int" where
  "fluency_as_claimed rate pause =
     min 100
       ((if 140 \<le> rate \<and> rate \<le> 180 then 90
         else if 120 \<le> rate \<and> rate \<le> 200 then 80
         else if 100 \<le> rate \<and> rate \<le> 220 then 70
         else 60)
        + (if 0.1 \<le> pause \<and> pause \<le> 0.3 then 5 else 0)
        - (if pause > 0.4 then 10 else 0))"

subsection \<open>The rounded mean as the specification words it\<close>

text \<open>
  The specification gives both aggregates as "round(mean)": the arithmetic mean of the
  scores, rounded to the nearest integer as \<^verbatim>\<open>Math.round\<close> does. \<open>rounded_mean\<close> is that
  number, computed without rounding errors; it is compared with \<open>calculateSectionScore\<close>
  and \<open>calculateOverallScore\<close> below.
\<close>

definition rounded_mean :: "real list \<Rightarrow> int" where
  "rounded_mean xs = \<lfloor>sum_list xs / real (length xs) + 1 / 2\<rfloor>"

section \<open>Properties\<close>

subsection \<open>Numbers\<close>

lemma js_le_Fin [simp]: "js_le (Fin a) (Fin b) = (a \<le> b)"
  by auto

declare js_le.simps [simp del]

lemma js_ge_Fin [simp]: "js_ge (Fin a) (Fin b) = (b \<le> a)"
  by (simp add: js_ge_def)

lemma js_greater_Fin [simp]: "js_greater (Fin a) (Fin b) = (b < a)"
  by (simp add: js_greater_def)

lemma js_div_num [simp]: "0 < b \<Longrightarrow> js_div (num a) (num b) = Fin (real a / real b)"
  by (simp add: num_def)

subsection \<open>Rounding to double precision\<close>

lemma binary_exponent_iff:
  "x \<noteq> 0 \<Longrightarrow> binary_exponent x = k \<longleftrightarrow> 2 powi k \<le> \<bar>x\<bar> \<and> \<bar>x\<bar> < 2 powi (k + 1)"
proof -
  assume x: "x \<noteq> 0"
  have a: "(2::real) powr real_of_int k = 2 powi k"
    by (rule powr_real_of_int') simp_all
  have b: "(2::real) powr real_of_int (k + 1) = 2 powi (k + 1)"
    by (rule powr_real_of_int') simp_all
  from x have "(\<lfloor>log 2 \<bar>x\<bar>\<rfloor> = k) = (2 powr real_of_int k \<le> \<bar>x\<bar> \<and> \<bar>x\<bar> < 2 powr real_of_int (k + 1))"
    by (intro floor_log_eq_powr_iff) simp_all
  then show ?thesis
    unfolding binary_exponent_def a b .
qed

lemma binary_exponent_bounds:
  "x \<noteq> 0 \<Longrightarrow> 2 powi (binary_exponent x) \<le> \<bar>x\<bar> \<and> \<bar>x\<bar> < 2 powi (binary_exponent x + 1)"
  using binary_exponent_iff [of x "binary_exponent x"] by simp

lemma binary_exponent_half:
  "x \<noteq> 0 \<Longrightarrow> binary_exponent (x / 2) = binary_exponent x - 1"
proof -
  assume x: "x \<noteq> 0"
  from binary_exponent_bounds [OF x]
  have "2 powi (binary_exponent x - 1) \<le> \<bar>x / 2\<bar> \<and> \<bar>x / 2\<bar> < 2 powi (binary_exponent x - 1 + 1)"
    by (simp add: power_int_diff power_int_add)
  with x show ?thesis
    by (subst binary_exponent_iff) simp_all
qed

lemma binary_exponent_twice:
  "x \<noteq> 0 \<Longrightarrow> binary_exponent (x * 2) = binary_exponent x + 1"
  using binary_exponent_half [of "x * 2"] by simp

lemma binary_exponent_code [code]:
  "binary_exponent x =
     (if x = 0 then binary_exponent 0
      else if 2 \<le> \<bar>x\<bar> then binary_exponent (x / 2) + 1
      else if \<bar>x\<bar> < 1 then binary_exponent (x * 2) - 1
      else 0)"
proof -
  have "binary_exponent x = 0" if "x \<noteq> 0" "\<not> 2 \<le> \<bar>x\<bar>" "\<not> \<bar>x\<bar> < 1"
    using that by (subst binary_exponent_iff) simp_all
  then show ?thesis
    by (simp add: binary_exponent_half binary_exponent_twice)
qed



lemma round_half_even_of_int: "round_half_even (of_int n) = n"
  by (simp add: round_half_even_def)

lemma round_half_even_error: "\<bar>of_int (round_half_even y) - y\<bar> \<le> 1 / 2"
proof -
  have "of_int \<lfloor>y\<rfloor> \<le> y" "y < of_int \<lfloor>y\<rfloor> + 1"
    by linarith+
  then show ?thesis
    by (auto simp: round_half_even_def Let_def)
qed

lemma power_int_two_less_cancel: "(2::real) powi a < 2 powi b \<Longrightarrow> a < b"
  by (rule ccontr) (use power_int_increasing [of b a "2::real"] in simp)

lemma to_double_exact:
  assumes x: "x = of_int m * 2 powi k" and m: "\<bar>m\<bar> < 2 ^ 53" and k: "- 1074 \<le> k"
  shows "to_double x = x"
proof (cases "x = 0")
  case True
  then show ?thesis by (simp add: to_double_def)
next
  case False
  define j where "j = max (binary_exponent x - 52) (- 1074)"
  from m have "\<bar>real_of_int m\<bar> < 2 ^ 53"
    by (metis of_int_abs of_int_less_numeral_power_cancel_iff)
  then have "\<bar>x\<bar> < 2 ^ 53 * 2 powi k"
    by (simp add: x abs_mult)
  also have "\<dots> = 2 powi (k + 53)"
    by (simp add: power_int_add)
  finally have "2 powi binary_exponent x < (2::real) powi (k + 53)"
    using binary_exponent_bounds [OF False] by linarith
  then have "binary_exponent x < k + 53"
    by (rule power_int_two_less_cancel)
  with k have jk: "j \<le> k"
    by (simp add: j_def)
  have "x / 2 powi j = of_int m * 2 powi (k - j)"
    by (simp add: x power_int_diff)
  also have "\<dots> = of_int (m * 2 ^ nat (k - j))"
    using jk by (simp add: power_int_def)
  finally have "round_half_even (x / 2 powi j) = m * 2 ^ nat (k - j)"
    by (simp only: round_half_even_of_int)
  then have "2 powi j * of_int (round_half_even (x / 2 powi j)) = 2 powi j * (of_int m * 2 powi (k - j))"
    using jk by (simp add: power_int_def)
  also have "\<dots> = x"
    by (simp add: x power_int_diff)
  finally show ?thesis
    using False by (simp add: to_double_def Let_def j_def)
qed

lemma to_double_of_int: "\<bar>n\<bar> < 2 ^ 53 \<Longrightarrow> to_double (of_int n) = of_int n"
  using to_double_exact [of "of_int n" n 0] by simp

lemma to_double_error:
  assumes "2 powi (- 1022) \<le> \<bar>x\<bar>"
  shows "\<bar>to_double x - x\<bar> \<le> \<bar>x\<bar> / 2 ^ 53"
proof -
  have "(0::real) < 2 powi (- 1022)"
    by simp
  with assms have x: "x \<noteq> 0"
    by auto
  define e where "e = binary_exponent x"
  from binary_exponent_bounds [OF x] assms have "(2::real) powi (- 1022) < 2 powi (e + 1)"
    unfolding e_def by linarith
  then have "- 1022 < e + 1"
    by (rule power_int_two_less_cancel)
  then have j: "max (e - 52) (- 1074) = e - 52"
    by simp
  define u :: real where "u = 2 powi (e - 52)"
  have u: "0 < u"
    by (simp add: u_def)
  have td: "to_double x = u * of_int (round_half_even (x / u))"
    using x by (simp add: to_double_def Let_def j e_def [symmetric] u_def)
  have "to_double x - x = u * (of_int (round_half_even (x / u)) - x / u)"
    using u by (simp add: td right_diff_distrib)
  then have "\<bar>to_double x - x\<bar> = u * \<bar>of_int (round_half_even (x / u)) - x / u\<bar>"
    using u by (simp add: abs_mult)
  also have "\<dots> \<le> u * (1 / 2)"
    using u round_half_even_error [of "x / u"] by (intro mult_left_mono) simp_all
  also have "\<dots> = 2 powi e / 2 ^ 53"
    by (simp add: u_def power_int_diff)
  also have "\<dots> \<le> \<bar>x\<bar> / 2 ^ 53"
    using binary_exponent_bounds [OF x] by (simp add: e_def divide_right_mono)
  finally show ?thesis .
qed

lemma floor_to_double_quotient:
  fixes T n :: int
  assumes T: "0 \<le> T" and n: "0 < n" and Tn: "T \<le> 100 * n" and n32: "n < 2 ^ 32"
  shows "\<lfloor>to_double (of_int T / of_int n) + 1 / 2\<rfloor> = \<lfloor>of_int T / of_int n + 1 / 2 :: real\<rfloor>
       \<and> \<bar>to_double (of_int T / of_int n)\<bar> \<le> 101"
proof (cases "T = 0")
  case True
  then show ?thesis by (simp add: to_double_def)
next
  case False
  define q :: real where "q = of_int T / of_int n"
  define m where "m = (2 * T + n) div (2 * n)"
  define r where "r = (2 * T + n) mod (2 * n)"
  from n have r_range: "0 \<le> r" "r < 2 * n"
    by (simp_all add: r_def)
  have "2 * T + n = 2 * n * m + r"
    by (simp add: m_def r_def)
  then have "real_of_int (2 * T + n) = real_of_int (2 * n * m + r)"
    by simp
  then have split: "q + 1 / 2 = of_int m + of_int r / (2 * of_int n)"
    using n by (simp add: q_def field_simps)
  from n n32 have rn: "0 < real_of_int n" "real_of_int n < 2 ^ 32"
    by simp_all
  from T Tn n have q_range: "0 \<le> q" "q \<le> 100"
    by (simp_all add: q_def field_simps)
  from r_range rn have frac: "0 \<le> real_of_int r / (2 * of_int n)" "real_of_int r / (2 * of_int n) < 1"
    by simp_all
  from split frac have fl: "\<lfloor>q + 1 / 2\<rfloor> = m"
    by (intro floor_unique) simp_all
  have "\<lfloor>to_double q + 1 / 2\<rfloor> = m \<and> \<bar>to_double q\<bar> \<le> 101"
  proof (cases "r = 0")
    case True
    with split have "q = of_int (2 * m - 1) * 2 powi (- 1)"
      by (simp add: power_int_minus)
    moreover from q_range split True have "real_of_int m \<le> 101" "0 \<le> real_of_int m"
      by simp_all
    then have "\<bar>2 * m - 1\<bar> < 2 ^ 53"
      by simp
    ultimately have "to_double q = q"
      by (intro to_double_exact [where m = "2 * m - 1" and k = "- 1"]) simp_all
    with fl q_range show ?thesis by simp
  next
    case False
    with r_range have "1 \<le> real_of_int r" "real_of_int r \<le> 2 * real_of_int n - 1"
      by simp_all
    with rn have frac': "1 / (2 * of_int n) \<le> real_of_int r / (2 * of_int n)"
        "real_of_int r / (2 * of_int n) \<le> 1 - 1 / (2 * of_int n)"
      by (simp_all add: field_simps)
    from \<open>T \<noteq> 0\<close> T have "1 \<le> real_of_int T"
      by simp
    with rn have "1 / 2 ^ 32 \<le> q"
      unfolding q_def by (simp add: field_simps)
    moreover have "(2::real) powi (- 1022) \<le> 2 powi (- 32)"
      by (rule power_int_increasing) simp_all
    ultimately have "2 powi (- 1022) \<le> \<bar>q\<bar>"
      by (simp add: power_int_minus field_simps)
    from to_double_error [OF this] q_range have err: "\<bar>to_double q - q\<bar> \<le> 100 / 2 ^ 53"
      by simp
    from rn have "100 / 2 ^ 53 < 1 / (2 * real_of_int n)"
      by (simp add: field_simps)
    with err frac' split have "of_int m \<le> to_double q + 1 / 2" "to_double q + 1 / 2 < of_int m + 1"
      by linarith+
    then have "\<lfloor>to_double q + 1 / 2\<rfloor> = m"
      by (intro floor_unique) simp_all
    moreover have "(100::real) / 2 ^ 53 \<le> 1"
      by simp
    with err q_range have "\<bar>to_double q\<bar> \<le> 101"
      by linarith
    ultimately show ?thesis by simp
  qed
  with fl show ?thesis
    by (simp add: q_def)
qed

lemma to_double_nearest:
  fixes p :: nat
  assumes "2 ^ 52 \<le> \<bar>x\<bar> * 2 ^ p" and "\<bar>x\<bar> * 2 ^ p < 2 ^ 53" and "p \<le> 1074"
    and "round_half_even (x * 2 ^ p) = n" and "r * 2 ^ p = of_int n"
  shows "to_double x = r"
proof -
  from assms(1) have x: "x \<noteq> 0"
    by auto
  have p: "(2::real) ^ p = 2 powi int p" "(2::real) ^ 52 = 2 powi 52" "(2::real) ^ 53 = 2 powi 53"
    by simp_all
  have "2 powi (52 - int p) \<le> \<bar>x\<bar> \<and> \<bar>x\<bar> < 2 powi (52 - int p + 1)"
    using assms(1,2) unfolding p by (simp add: power_int_diff power_int_add field_simps)
  with x have e: "binary_exponent x = 52 - int p"
    by (simp add: binary_exponent_iff)
  from assms(3) have ulp: "(2::real) powi (max (binary_exponent x - 52) (- 1074)) = 1 / 2 ^ p"
    by (simp add: e power_int_minus field_simps)
  from assms(5) have "r = of_int n / 2 ^ p"
    by (simp add: field_simps)
  with assms(4) x show ?thesis
    by (simp add: to_double_def ulp)
qed

lemma round_double_nearest:
  fixes p :: nat
  assumes "2 ^ 52 \<le> \<bar>x\<bar> * 2 ^ p" and "\<bar>x\<bar> * 2 ^ p < 2 ^ 53" and "p \<le> 1074"
    and "round_half_even (x * 2 ^ p) = n" and "r * 2 ^ p = of_int n"
  shows "round_double (Fin x) = Fin r"
proof -
  have td: "to_double x = r"
    using assms by (rule to_double_nearest)
  have "\<bar>x * 2 ^ p\<bar> = \<bar>x\<bar> * 2 ^ p" "\<bar>r * 2 ^ p\<bar> = \<bar>r\<bar> * 2 ^ p"
    by (simp_all add: abs_mult)
  with assms(2,5) round_half_even_error [of "x * 2 ^ p"] have "\<bar>r\<bar> * 2 ^ p < 2 ^ 53 + 1"
    unfolding assms(4) by linarith
  moreover have "\<bar>r\<bar> * 1 \<le> \<bar>r\<bar> * 2 ^ p"
    by (intro mult_left_mono) simp_all
  moreover have "(2::real) ^ 53 + 1 \<le> 2 ^ 54"
    by simp
  moreover have "(2::real) ^ 54 \<le> 2 ^ 1024"
    by (rule power_increasing) simp_all
  ultimately have "\<not> 2 ^ 1024 \<le> \<bar>r\<bar>"
    by linarith
  then show ?thesis
    by (simp add: td)
qed

lemma double_add_nearest:
  fixes p :: nat
  assumes "2 ^ 52 \<le> \<bar>a + b\<bar> * 2 ^ p" and "\<bar>a + b\<bar> * 2 ^ p < 2 ^ 53" and "p \<le> 1074"
    and "round_half_even ((a + b) * 2 ^ p) = n" and "r * 2 ^ p = of_int n"
  shows "double_add (Fin a) (Fin b) = Fin r"
  using round_double_nearest [OF assms] by (simp add: double_add_def)

lemma double_div_nearest:
  fixes p :: nat
  assumes "b \<noteq> 0" and "2 ^ 52 \<le> \<bar>a / b\<bar> * 2 ^ p" and "\<bar>a / b\<bar> * 2 ^ p < 2 ^ 53" and "p \<le> 1074"
    and "round_half_even (a / b * 2 ^ p) = n" and "r * 2 ^ p = of_int n"
  shows "double_div (Fin a) (Fin b) = Fin r"
  using round_double_nearest [OF assms(2-6)] assms(1) by (simp add: double_div_def)

subsection \<open>Aggregation and levels\<close>

lemma round_double_of_int: "\<bar>n\<bar> < 2 ^ 53 \<Longrightarrow> round_double (Fin (of_int n)) = Fin (of_int n)"
proof -
  assume n: "\<bar>n\<bar> < 2 ^ 53"
  then have "\<bar>real_of_int n\<bar> < 2 ^ 53"
    by (metis of_int_abs of_int_less_numeral_power_cancel_iff)
  moreover have "(2::real) ^ 53 \<le> 2 ^ 1024"
    by (rule power_increasing) simp_all
  ultimately have "\<not> 2 ^ 1024 \<le> \<bar>real_of_int n\<bar>"
    by linarith
  with n show ?thesis
    by (simp add: to_double_of_int)
qed

lemma double_add_of_int:
  "\<bar>a + b\<bar> < 2 ^ 53 \<Longrightarrow> double_add (Fin (of_int a)) (Fin (of_int b)) = Fin (of_int (a + b))"
  using round_double_of_int [of "a + b"] by (simp add: double_add_def)

lemma Math_round_double_div:
  fixes T n :: int
  assumes "0 \<le> T" and "0 < n" and "T \<le> 100 * n" and "n < 2 ^ 32"
  shows "Math_round (double_div (Fin (of_int T)) (Fin (of_int n)))
         = Fin (of_int \<lfloor>of_int T / of_int n + 1 / 2 :: real\<rfloor>)"
proof -
  from floor_to_double_quotient [OF assms]
  have fl: "\<lfloor>to_double (of_int T / of_int n) + 1 / 2\<rfloor> = \<lfloor>of_int T / of_int n + 1 / 2 :: real\<rfloor>"
    and bound: "\<bar>to_double (of_int T / of_int n)\<bar> \<le> 101"
    by simp_all
  have "(101::real) < 2 ^ 7"
    by simp
  also have "(2::real) ^ 7 \<le> 2 ^ 1024"
    by (rule power_increasing) simp_all
  finally have "\<not> 2 ^ 1024 \<le> \<bar>to_double (of_int T / of_int n)\<bar>"
    using bound by linarith
  with assms(2) fl show ?thesis
    by (simp add: double_div_def)
qed

lemma foldl_double_add:
  assumes "map ss_score ss = map (\<lambda>k. Fin (of_int k)) ks"
    and "\<forall>k\<in>set ks. 0 \<le> k \<and> k \<le> 100"
    and "0 \<le> a" and "a + 100 * int (length ss) < 2 ^ 53"
  shows "foldl (\<lambda>sum s. double_add sum (ss_score s)) (Fin (of_int a)) ss
         = Fin (of_int (a + sum_list ks))
       \<and> 0 \<le> sum_list ks \<and> sum_list ks \<le> 100 * int (length ss)"
  using assms
proof (induction ss arbitrary: a ks)
  case Nil
  then show ?case by simp
next
  case (Cons s ss)
  then obtain k ks' where ks: "ks = k # ks'" "ss_score s = Fin (of_int k)"
      "map ss_score ss = map (\<lambda>k. Fin (of_int k)) ks'"
    by (cases ks) auto
  from Cons.prems(2) ks(1) have k: "0 \<le> k" "k \<le> 100" and ks': "\<forall>k\<in>set ks'. 0 \<le> k \<and> k \<le> 100"
    by simp_all
  from k Cons.prems(3,4) have "\<bar>a + k\<bar> < 2 ^ 53" "0 \<le> a + k" "a + k + 100 * int (length ss) < 2 ^ 53"
    by simp_all
  with Cons.IH [OF ks(3) ks', of "a + k"] double_add_of_int [of a k] ks k show ?case
    by (simp add: add.assoc)
qed

lemma sum_list_of_int: "sum_list (map real_of_int ks) = of_int (sum_list ks)"
  by (induction ks) simp_all

text \<open>
  C3. \<^verbatim>\<open>getScoreLevel\<close> follows the breakpoint table 85 / 75 / 65 / 55 on every finite
  score, the four boundaries fall as the table says (85 is "Excellent", 84 is "Very Good",
  and so on), and \<^verbatim>\<open>getScoreFeedback\<close> changes its sentence at the same four breakpoints.
\<close>

theorem getScoreLevel_table:
  "getScoreLevel (Fin x) =
     (if 85 \<le> x then ''Excellent'' else if 75 \<le> x then ''Very Good''
      else if 65 \<le> x then ''Good'' else if 55 \<le> x then ''Fair''
      else ''Needs Improvement'')
   \<and> getScoreLevel (Fin 85) = ''Excellent'' \<and> getScoreLevel (Fin 84) = ''Very Good''
   \<and> getScoreLevel (Fin 75) = ''Very Good'' \<and> getScoreLevel (Fin 74) = ''Good''
   \<and> getScoreLevel (Fin 65) = ''Good'' \<and> getScoreLevel (Fin 64) = ''Fair''
   \<and> getScoreLevel (Fin 55) = ''Fair'' \<and> getScoreLevel (Fin 54) = ''Needs Improvement''
   \<and> getScoreFeedback (Fin x) =
     (if 85 \<le> x
        then ''Excellent performance! You are very well-prepared for the placement test.''
      else if 75 \<le> x
        then ''Very good! Your communication skills are strong. Keep practicing to reach excellence.''
      else if 65 \<le> x
        then ''Good effort! You have solid fundamentals. Focus on improving weak areas.''
      else if 55 \<le> x
        then ''Fair performance. Dedicate more time to practice and improvement.''
      else ''Keep practicing! Focus on all areas of communication skills.'')"
  by (simp add: getScoreLevel_def getScoreFeedback_def)

text \<open>
  C4 does not hold for every \<^verbatim>\<open>ScoringParameters\<close> the function is given. The result page of
  the communication test (\<^verbatim>\<open>src/app/test/communication/page.tsx\<close>) passes the averages of
  the parameters of a section, which are fractions. For the doubles nearest to 89.5, 76.2,
  90.5, 16.9 and 59.4 the mean is exactly 66.5, so the rounded mean is 67; the sum computed
  in double precision is 332.49999999999994, its fifth 66.49999999999999, and
  \<^verbatim>\<open>calculateSectionScore\<close> returns 66.
\<close>

theorem calculateSectionScore_fraction_counterexample:
  "calculateSectionScore
     \<lparr>fluency = Fin (to_double 89.5), pronunciation = Fin (to_double 76.2),
      grammar = Fin (to_double 90.5), vocabulary = Fin (to_double 16.9),
      comprehension = Fin (to_double 59.4)\<rparr> = Fin 66
   \<and> rounded_mean [to_double 89.5, to_double 76.2, to_double 90.5, to_double 16.9, to_double 59.4]
     = 67"
proof -
  have fluency: "to_double 89.5 = 179 / 2"
    by (rule to_double_nearest [where p = 46 and n = 6298002603900928])
      (simp_all add: round_half_even_def)
  have pronunciation: "to_double 76.2 = 5362098306337997 / 70368744177664"
    by (rule to_double_nearest [where p = 46 and n = 5362098306337997])
      (simp_all add: round_half_even_def)
  have grammar: "to_double 90.5 = 181 / 2"
    by (rule to_double_nearest [where p = 46 and n = 6368371348078592])
      (simp_all add: round_half_even_def)
  have vocabulary: "to_double 16.9 = 2378463553205043 / 140737488355328"
    by (rule to_double_nearest [where p = 48 and n = 4756927106410086])
      (simp_all add: round_half_even_def)
  have comprehension: "to_double 59.4 = 8359806808306483 / 140737488355328"
    by (rule to_double_nearest [where p = 47 and n = 8359806808306483])
      (simp_all add: round_half_even_def)
  have sum1: "double_add (Fin (179 / 2)) (Fin (5362098306337997 / 70368744177664))
      = Fin (2915025227559731 / 17592186044416)"
    by (rule double_add_nearest [where p = 45 and n = 5830050455119462])
      (simp_all add: round_half_even_def)
  have sum2: "double_add (Fin (2915025227559731 / 17592186044416)) (Fin (181 / 2))
      = Fin (4507118064579379 / 17592186044416)"
    by (rule double_add_nearest [where p = 44 and n = 4507118064579379])
      (simp_all add: round_half_even_def)
  have sum3: "double_add (Fin (4507118064579379 / 17592186044416))
        (Fin (2378463553205043 / 140737488355328))
      = Fin (4804426008730009 / 17592186044416)"
    by (rule double_add_nearest [where p = 44 and n = 4804426008730009])
      (simp_all add: round_half_even_def)
  have sum4: "double_add (Fin (4804426008730009 / 17592186044416))
        (Fin (8359806808306483 / 140737488355328))
      = Fin (5849401859768319 / 17592186044416)"
    by (rule double_add_nearest [where p = 44 and n = 5849401859768319])
      (simp_all add: round_half_even_def)
  have quotient: "double_div (Fin (5849401859768319 / 17592186044416)) (Fin 5)
      = Fin (4679521487814655 / 70368744177664)"
    by (rule double_div_nearest [where p = 46 and n = 4679521487814655])
      (simp_all add: round_half_even_def)
  have rounded: "Math_round (Fin (4679521487814655 / 70368744177664)) = Fin 66"
    by simp
  have code: "calculateSectionScore
     \<lparr>fluency = Fin (to_double 89.5), pronunciation = Fin (to_double 76.2),
      grammar = Fin (to_double 90.5), vocabulary = Fin (to_double 16.9),
      comprehension = Fin (to_double 59.4)\<rparr> = Fin 66"
    by (simp only: calculateSectionScore_def ScoringParameters.select_convs fluency
        pronunciation grammar vocabulary comprehension sum1 sum2 sum3 sum4 quotient rounded)
  have "rounded_mean [179 / 2, 5362098306337997 / 70368744177664, 181 / 2,
      2378463553205043 / 140737488355328, 8359806808306483 / 140737488355328] = 67"
    by (simp add: rounded_mean_def)
  then have claimed: "rounded_mean
      [to_double 89.5, to_double 76.2, to_double 90.5, to_double 16.9, to_double 59.4] = 67"
    by (simp only: fluency pronunciation grammar vocabulary comprehension)
  from code claimed show ?thesis
    by (rule conjI)
qed

text \<open>
  C4, amended. On integer scores from 0 to 100, as \<^verbatim>\<open>assessResponse\<close> returns them,
  \<^verbatim>\<open>calculateSectionScore\<close> is the mean of the five dimensions rounded to the nearest integer
  (five times 80 gives 80); \<^verbatim>\<open>calculateOverallScore\<close> is 0 on the empty list and otherwise,
  on integer section scores from 0 to 100, the rounded mean of the section scores. Both
  results are finite numbers: no division by zero takes place. The sums of such scores are
  integers that a double holds exactly, and the rounding of the quotient to double precision
  does not move it across a half.
\<close>

theorem calculateSectionScore_mean:
  assumes "\<forall>k\<in>set [a, b, c, d, e]. 0 \<le> k \<and> k \<le> 100"
    and "map ss_score sections = map (\<lambda>k. Fin (of_int k)) ks"
    and "\<forall>k\<in>set ks. 0 \<le> k \<and> k \<le> 100"
    and "length sections \<le> array_length_limit"
  shows "calculateSectionScore
           \<lparr>fluency = Fin (of_int a), pronunciation = Fin (of_int b), grammar = Fin (of_int c),
            vocabulary = Fin (of_int d), comprehension = Fin (of_int e)\<rparr>
         = Fin (of_int (rounded_mean (map of_int [a, b, c, d, e])))
       \<and> calculateSectionScore
           \<lparr>fluency = Fin 80, pronunciation = Fin 80, grammar = Fin 80, vocabulary = Fin 80,
            comprehension = Fin 80\<rparr> = Fin 80
       \<and> calculateOverallScore [] = Fin 0
       \<and> calculateOverallScore sections =
           (if sections = [] then Fin 0 else Fin (of_int (rounded_mean (map of_int ks))))"
proof -
  have section_score: "calculateSectionScore
           \<lparr>fluency = Fin (of_int a'), pronunciation = Fin (of_int b'), grammar = Fin (of_int c'),
            vocabulary = Fin (of_int d'), comprehension = Fin (of_int e')\<rparr>
         = Fin (of_int (rounded_mean (map of_int [a', b', c', d', e'])))"
    if range: "\<forall>k\<in>set [a', b', c', d', e']. 0 \<le> k \<and> k \<le> 100" for a' b' c' d' e' :: int
  proof -
    from range have s1: "double_add (Fin (of_int a')) (Fin (of_int b')) = Fin (of_int (a' + b'))"
      by (intro double_add_of_int) simp
    from range have s2: "double_add (Fin (of_int (a' + b'))) (Fin (of_int c')) = Fin (of_int (a' + b' + c'))"
      by (intro double_add_of_int) simp
    from range have s3: "double_add (Fin (of_int (a' + b' + c'))) (Fin (of_int d'))
        = Fin (of_int (a' + b' + c' + d'))"
      by (intro double_add_of_int) simp
    from range have s4: "double_add (Fin (of_int (a' + b' + c' + d'))) (Fin (of_int e'))
        = Fin (of_int (a' + b' + c' + d' + e'))"
      by (intro double_add_of_int) simp
    from range have "Math_round (double_div (Fin (of_int (a' + b' + c' + d' + e'))) (Fin (of_int 5)))
        = Fin (of_int \<lfloor>of_int (a' + b' + c' + d' + e') / of_int 5 + 1 / 2 :: real\<rfloor>)"
      by (intro Math_round_double_div) simp_all
    then have quotient: "Math_round (double_div (Fin (of_int (a' + b' + c' + d' + e'))) (Fin 5))
        = Fin (of_int \<lfloor>of_int (a' + b' + c' + d' + e') / 5 + 1 / 2 :: real\<rfloor>)"
      by simp
    have mean: "rounded_mean (map of_int [a', b', c', d', e'])
        = \<lfloor>of_int (a' + b' + c' + d' + e') / 5 + 1 / 2 :: real\<rfloor>"
      by (simp add: rounded_mean_def add.assoc)
    show ?thesis
      by (simp only: calculateSectionScore_def ScoringParameters.select_convs s1 s2 s3 s4
          quotient mean)
  qed
  have eighty: "calculateSectionScore
           \<lparr>fluency = Fin 80, pronunciation = Fin 80, grammar = Fin 80, vocabulary = Fin 80,
            comprehension = Fin 80\<rparr> = Fin 80"
    using section_score [of 80 80 80 80 80] by (simp add: rounded_mean_def)
  have empty: "calculateOverallScore [] = Fin 0"
    by (simp add: calculateOverallScore_def)
  have overall: "calculateOverallScore sections = Fin (of_int (rounded_mean (map of_int ks)))"
    if nonempty: "sections \<noteq> []"
  proof -
    from assms(4) have len: "int (length sections) < 2 ^ 32"
      by (simp add: array_length_limit_def)
    then have "0 + 100 * int (length sections) < 2 ^ 53"
      by simp
    from foldl_double_add [OF assms(2,3) _ this]
    have total: "foldl (\<lambda>sum s. double_add sum (ss_score s)) (Fin 0) sections = Fin (of_int (sum_list ks))"
      and range: "0 \<le> sum_list ks" "sum_list ks \<le> 100 * int (length sections)"
      by simp_all
    from nonempty have "0 < int (length sections)"
      by simp
    from Math_round_double_div [OF range(1) this range(2) len]
    have "Math_round (double_div (Fin (of_int (sum_list ks))) (num (length sections)))
        = Fin (of_int \<lfloor>of_int (sum_list ks) / real (length sections) + 1 / 2\<rfloor>)"
      by (simp add: num_def)
    moreover from assms(2) have "length ks = length sections"
      by (metis length_map)
    ultimately show ?thesis
      using nonempty
      by (simp add: calculateOverallScore_def total rounded_mean_def sum_list_of_int)
  qed
  from section_score [OF assms(1)] eighty empty overall show ?thesis
    by simp
qed

theorem calculateSectionScore_mean_witness:
  "calculateSectionScore
     \<lparr>fluency = Fin 70, pronunciation = Fin 75, grammar = Fin 80, vocabulary = Fin 90,
      comprehension = Fin 70\<rparr> = Fin 77
   \<and> calculateOverallScore
     [\<lparr>ss_section = ''A'', ss_score = Fin 70,
       ss_parameters = \<lparr>fluency = Fin 70, pronunciation = Fin 70, grammar = Fin 70,
                         vocabulary = Fin 70, comprehension = Fin 70\<rparr>,
       ss_feedback = ''''\<rparr>,
      \<lparr>ss_section = ''B'', ss_score = Fin 85,
       ss_parameters = \<lparr>fluency = Fin 85, pronunciation = Fin 85, grammar = Fin 85,
                         vocabulary = Fin 85, comprehension = Fin 85\<rparr>,
       ss_feedback = ''''\<rparr>] = Fin 78"
proof -
  let ?ss = "[\<lparr>ss_section = ''A'', ss_score = Fin 70,
       ss_parameters = \<lparr>fluency = Fin 70, pronunciation = Fin 70, grammar = Fin 70,
                         vocabulary = Fin 70, comprehension = Fin 70\<rparr>,
       ss_feedback = ''''\<rparr>,
      \<lparr>ss_section = ''B'', ss_score = Fin 85,
       ss_parameters = \<lparr>fluency = Fin 85, pronunciation = Fin 85, grammar = Fin 85,
                         vocabulary = Fin 85, comprehension = Fin 85\<rparr>,
       ss_feedback = ''''\<rparr>]"
  have scores: "\<forall>k\<in>set [70, 75, 80, 90, 70 :: int]. 0 \<le> k \<and> k \<le> 100"
    by simp
  have h: "map ss_score ?ss = map (\<lambda>k. Fin (of_int k)) [70, 85]"
    by simp
  have range: "\<forall>k\<in>set [70, 85 :: int]. 0 \<le> k \<and> k \<le> 100"
    by simp
  have len: "length ?ss \<le> array_length_limit"
    by (simp add: array_length_limit_def)
  from calculateSectionScore_mean [OF scores h range len] show ?thesis
    by (simp add: rounded_mean_def)
qed

subsection \<open>Fluency from the audio metrics\<close>

text \<open>
  C7, as stated, fails at the end points of the pause band: a speaking rate of 150 with a
  pause ratio of exactly 0.1 scores 90, while the table read with the band 0.1--0.3 gives
  95. (The source tests \<^verbatim>\<open>pauseRatio > 0.1 && pauseRatio < 0.3\<close>.)
\<close>

theorem calculateFluencyFromRate_pause_band_counterexample:
  "calculateFluencyFromRate (Fin 150) (Fin 0.1) = 90 \<and> fluency_as_claimed 150 0.1 = 95"
  by (simp add: calculateFluencyFromRate_def fluency_as_claimed_def)

text \<open>
  C7, amended. On a finite speaking rate and pause ratio the fluency is 90 for a rate from
  140 to 180, else 80 from 120 to 200, else 70 from 100 to 220, else 60; then 5 is added
  when the pause ratio lies strictly between 0.1 and 0.3, and 10 is subtracted when it
  exceeds 0.4; the result is capped at 100.
\<close>

theorem calculateFluencyFromRate_table:
  "calculateFluencyFromRate (Fin rate) (Fin pause) =
     min 100
       ((if 140 \<le> rate \<and> rate \<le> 180 then 90
         else if 120 \<le> rate \<and> rate \<le> 200 then 80
         else if 100 \<le> rate \<and> rate \<le> 220 then 70
         else 60)
        + (if 0.1 < pause \<and> pause < 0.3 then 5 else 0)
        - (if pause > 0.4 then 10 else 0))"
  by (auto simp: calculateFluencyFromRate_def)

subsection \<open>The grammar analyser\<close>

lemma fold_apply_common_error_score:
  "g_score (fold (apply_common_error text) es st) =
     g_score st - sum_list (map (\<lambda>e. snd (snd e)) (filter (pattern_matches text) es))"
  by (induction es arbitrary: st) (auto simp: apply_common_error_def)

lemma commonErrors_penalties:
  "12 \<le> length commonErrors \<and> list_all (\<lambda>e. 5 \<le> snd (snd e) \<and> snd (snd e) \<le> 10) commonErrors"
  by (simp add: commonErrors_def)

lemma check_capitalization_score:
  "g_score (check_capitalization text st) =
     g_score st - (if starts_with_capital (trim text) then 0 else 5)"
  by (simp add: check_capitalization_def)

lemma check_ending_punctuation_score:
  "g_score (check_ending_punctuation text st) =
     g_score st - (if ends_with_punctuation (trim text) then 0 else 5)"
  by (simp add: check_ending_punctuation_def)

lemma check_common_errors_score:
  "g_score (check_common_errors text st) =
     g_score st - sum_list (map (\<lambda>e. snd (snd e)) (filter (pattern_matches text) commonErrors))"
  by (simp add: check_common_errors_def fold_apply_common_error_score)

lemma check_sentence_structure_score:
  "g_score (check_sentence_structure text st) =
     g_score st - (if wordsPerSentence text < 5 then 5 else if wordsPerSentence text > 25 then 3 else 0)"
  by (simp add: check_sentence_structure_def wordsPerSentence_def grammar_words_def Let_def)

lemma check_conjunctions_score:
  "g_score (check_conjunctions text st) = g_score st + (if has_conjunction text then 5 else 0)"
  by (simp add: check_conjunctions_def has_conjunction_def)

lemma analyzeGrammarFree_closed_form:
  "g_score (analyzeGrammarFree text) =
     max 0 (min 100
       (85
        - (if starts_with_capital (trim text) then 0 else 5)
        - (if ends_with_punctuation (trim text) then 0 else 5)
        - sum_list (map (\<lambda>e. snd (snd e)) (filter (pattern_matches text) commonErrors))
        - (if wordsPerSentence text < 5 then 5 else if wordsPerSentence text > 25 then 3 else 0)
        + (if has_conjunction text then 5 else 0)))"
  by (simp add: analyzeGrammarFree_def Let_def
      check_capitalization_score check_ending_punctuation_score check_common_errors_score
      check_sentence_structure_score check_conjunctions_score split del: if_split)

text \<open>
  C2. The grammar score is the base 85, minus 5 without a leading capital, minus 5 without
  terminal punctuation, minus the penalty of every pattern of the catalogue that matches
  (the penalties add up), minus 5 when the average of words per sentence is below 5 or
  minus 3 when it is above 25, plus 5 when a listed conjunction occurs in the text, clamped
  to 0..100. The catalogue has at least 12 patterns, each with a penalty from 5 to 10. A
  text that triggers exactly one pattern and nothing else scores 85 minus the penalty of
  that pattern.
\<close>

theorem analyzeGrammarFree_score:
  "g_score (analyzeGrammarFree text) =
     max 0 (min 100
       (85
        - (if starts_with_capital (trim text) then 0 else 5)
        - (if ends_with_punctuation (trim text) then 0 else 5)
        - sum_list (map (\<lambda>e. snd (snd e)) (filter (pattern_matches text) commonErrors))
        - (if wordsPerSentence text < 5 then 5 else if wordsPerSentence text > 25 then 3 else 0)
        + (if has_conjunction text then 5 else 0)))
   \<and> 12 \<le> length commonErrors
   \<and> list_all (\<lambda>e. 5 \<le> snd (snd e) \<and> snd (snd e) \<le> 10) commonErrors
   \<and> (filter (pattern_matches text) commonErrors = [e]
        \<and> starts_with_capital (trim text) \<and> ends_with_punctuation (trim text)
        \<and> 5 \<le> wordsPerSentence text \<and> wordsPerSentence text \<le> 25 \<and> \<not> has_conjunction text
      \<longrightarrow> g_score (analyzeGrammarFree text) = 85 - snd (snd e))"
proof -
  have isolated: "g_score (analyzeGrammarFree text) = 85 - snd (snd e)"
    if only: "filter (pattern_matches text) commonErrors = [e]"
      and clean: "starts_with_capital (trim text)" "ends_with_punctuation (trim text)"
        "5 \<le> wordsPerSentence text" "wordsPerSentence text \<le> 25" "\<not> has_conjunction text"
  proof -
    have "e \<in> set (filter (pattern_matches text) commonErrors)"
      using only by simp
    then have "e \<in> set commonErrors" by simp
    with commonErrors_penalties have "5 \<le> snd (snd e) \<and> snd (snd e) \<le> 10"
      by (auto simp: list_all_iff)
    with only clean show ?thesis
      by (simp add: analyzeGrammarFree_closed_form)
  qed
  from analyzeGrammarFree_closed_form commonErrors_penalties isolated show ?thesis
    by blast
qed

theorem analyzeGrammarFree_score_witness:
  "g_score (analyzeGrammarFree ''He don't like hot coffee.'') = 77"
proof -
  let ?text = "''He don't like hot coffee.''"
  let ?e = "(''he don't'', ''Subject-verb disagreement'', 8 :: int)"
  have only: "filter (pattern_matches ?text) commonErrors = [?e]"
    by code_simp
  have clean: "starts_with_capital (trim ?text)" "ends_with_punctuation (trim ?text)"
    "5 \<le> wordsPerSentence ?text" "wordsPerSentence ?text \<le> 25" "\<not> has_conjunction ?text"
    by code_simp+
  from analyzeGrammarFree_score [of ?text ?e] only clean show ?thesis
    by simp
qed

subsection \<open>Splitting\<close>

lemma split_scan_nonempty: "split_scan sep insep cur s \<noteq> []"
  by (induction s arbitrary: insep cur) auto

lemma split_on_nonempty: "split_on sep s \<noteq> []"
  by (simp add: split_on_def split_scan_nonempty)

lemma split_whitespace_nonempty [simp]: "split_whitespace s \<noteq> []"
  by (simp add: split_whitespace_def split_on_nonempty)

subsection \<open>The relevance of the content analyser\<close>

lemma fold_count:
  "fold (\<lambda>x n. if P x then n + 1 else n) xs k = k + length (filter P xs)"
  by (induction xs arbitrary: k) auto

lemma countMatchingConcepts_filter:
  "countMatchingConcepts userWords expectedWords =
     length (filter (concept_matched userWords) expectedWords)"
  by (simp add: countMatchingConcepts_def fold_count)

lemma Math_min_Fin [simp]: "Math_min (Fin a) (Fin b) = Fin (min a b)"
  by auto

lemma relevance_supplied:
  "hint \<noteq> [] \<Longrightarrow>
   relevance (analyzeContentFree text (Some hint) question sec) =
     Fin (min 100 (50 + matched_ratio text hint * 50))"
  by (simp add: analyzeContentFree_def Let_def countMatchingConcepts_filter matched_ratio_def
      transcript_words_def hint_tokens_def)

lemma relevance_not_supplied:
  "\<not> supplied hint \<Longrightarrow> relevance (analyzeContentFree text hint question sec) = Fin 70"
  by (simp add: analyzeContentFree_def Let_def)







subsection \<open>Ranges of the scores\<close>

lemma is_score_round: "0 \<le> x \<Longrightarrow> x \<le> 100 \<Longrightarrow> is_score (Math_round (Fin x))"
  by (simp add: floor_le_iff le_floor_iff)

lemma is_score_of_score: "0 \<le> n \<Longrightarrow> n \<le> 100 \<Longrightarrow> is_score (Math_round (of_score n))"
  by (simp add: of_score_def)

lemma g_score_bounds:
  "0 \<le> g_score (analyzeGrammarFree text) \<and> g_score (analyzeGrammarFree text) \<le> 100"
  by (simp add: analyzeGrammarFree_def Let_def)

lemma v_score_bounds:
  "0 \<le> v_score (analyzeVocabularyFree text) \<and> v_score (analyzeVocabularyFree text) \<le> 100"
  by (simp add: analyzeVocabularyFree_def Let_def)

lemma matched_ratio_range: "0 \<le> matched_ratio text hint \<and> matched_ratio text hint \<le> 1"
proof -
  have "length (filter (concept_matched (transcript_words text)) (hint_tokens hint))
          \<le> length (hint_tokens hint)"
    by simp
  then show ?thesis
    unfolding matched_ratio_def
    by (simp add: divide_le_eq_1 hint_tokens_def)
qed

lemma relevance_range:
  "\<exists>r. relevance (analyzeContentFree text hint question sec) = Fin r \<and> 50 \<le> r \<and> r \<le> 100"
proof (cases "supplied hint")
  case True
  then obtain h where h: "hint = Some h" "h \<noteq> []"
    by (cases hint) auto
  from matched_ratio_range [of "text" h] have "0 \<le> matched_ratio text h * 50"
    by simp
  with h show ?thesis
    by (simp add: relevance_supplied)
next
  case False
  then show ?thesis by (simp add: relevance_not_supplied)
qed

lemma estimatePronunciationFromText_bounds:
  "0 \<le> estimatePronunciationFromText text \<and> estimatePronunciationFromText text \<le> 100"
  by (simp add: estimatePronunciationFromText_def Let_def)

lemma estimateFluencyFromText_bounds:
  "0 \<le> estimateFluencyFromText text \<and> estimateFluencyFromText text \<le> 100"
  by (simp add: estimateFluencyFromText_def Let_def split del: if_split)

lemma calculateFluencyFromRate_bounds:
  "0 \<le> calculateFluencyFromRate rate pause \<and> calculateFluencyFromRate rate pause \<le> 100"
  by (simp add: calculateFluencyFromRate_def Let_def)

lemma estimateClarity_bounds:
  "50 \<le> estimateClarity channelData rate \<and> estimateClarity channelData rate \<le> 100"
  by (simp add: estimateClarity_def)

subsection \<open>The loops of the audio metric estimator\<close>

text \<open>
  With a window of no sample the loop of \<^verbatim>\<open>calculateVolumeVariation\<close> does not advance: it
  fills \<^verbatim>\<open>volumes\<close> until the \<^verbatim>\<open>push\<close> raises \<^verbatim>\<open>RangeError\<close>. That is the case of a recording
  of 1 to 19 samples.
\<close>

lemma volumes_loop_window_zero:
  "i < length channelData \<Longrightarrow> volumes_loop channelData 0 i volumes = Inl RangeError"
proof (induction "array_length_limit - length volumes" arbitrary: volumes rule: less_induct)
  case less
  show ?case
  proof (cases "length volumes < array_length_limit")
    case True
    let ?volumes = "volumes @ [calculateRMS (slice channelData (int i) (int i + int 0))]"
    from True have "array_length_limit - length ?volumes < array_length_limit - length volumes"
      by simp
    from less.hyps [OF this less.prems] True less.prems show ?thesis
      by (subst volumes_loop.simps) simp
  next
    case False
    with less.prems show ?thesis
      by (subst volumes_loop.simps) simp
  qed
qed

lemma calculateVolumeVariation_short:
  "0 < length channelData \<Longrightarrow> length channelData < 20 \<Longrightarrow>
   calculateVolumeVariation channelData = Inl RangeError"
  by (simp add: calculateVolumeVariation_def volumes_loop_window_zero)

text \<open>
  With a window of at least one sample the loop advances, and it appends one volume for
  every window begun: for a window of a twentieth of the samples at most 40 volumes.
\<close>

lemma volumes_loop_returns:
  assumes "0 < windowSize"
    and "length volumes + (length channelData - i + windowSize - 1) div windowSize
          \<le> array_length_limit"
  shows "\<exists>r. volumes_loop channelData windowSize i volumes = Inr r"
  using assms(2)
proof (induction "length channelData - i" arbitrary: i volumes rule: less_induct)
  case less
  show ?case
  proof (cases "i < length channelData")
    case True
    let ?volumes = "volumes @ [calculateRMS (slice channelData (int i) (int i + int windowSize))]"
    from True assms(1) have smaller: "length channelData - (i + windowSize) < length channelData - i"
      by arith
    from True assms(1) have "windowSize \<le> length channelData - i + windowSize - 1"
      by arith
    then have "(length channelData - i + windowSize - 1) div windowSize
        = Suc ((length channelData - i + windowSize - 1 - windowSize) div windowSize)"
      using assms(1) by (simp add: le_div_geq)
    moreover have "(length channelData - (i + windowSize) + windowSize - 1) div windowSize
        \<le> (length channelData - i + windowSize - 1 - windowSize) div windowSize"
    proof (cases "i + windowSize < length channelData")
      case True
      then have "length channelData - (i + windowSize) + windowSize - 1
          = length channelData - i + windowSize - 1 - windowSize"
        by arith
      then show ?thesis by simp
    next
      case False
      with assms(1) have "length channelData - (i + windowSize) + windowSize - 1 < windowSize"
        by arith
      then show ?thesis by simp
    qed
    ultimately have room: "length volumes < array_length_limit"
      and "length ?volumes + (length channelData - (i + windowSize) + windowSize - 1) div windowSize
          \<le> array_length_limit"
      using less.prems by simp_all
    from less.hyps [OF smaller this(2)] True room show ?thesis
      by (subst volumes_loop.simps) simp
  next
    case False
    then show ?thesis
      by (subst volumes_loop.simps) simp
  qed
qed

lemma calculateVolumeVariation_returns:
  assumes "20 \<le> length channelData"
  shows "\<exists>v. calculateVolumeVariation channelData = Inr v"
proof -
  define w where "w = length channelData div 20"
  from assms have w: "0 < w"
    by (simp add: w_def div_greater_zero_iff)
  have "length channelData < 20 * w + 20"
    unfolding w_def by (metis add.commute mod_less_divisor mult.commute div_mult_mod_eq
        add_less_cancel_left zero_less_numeral)
  with w have "length channelData - 0 + w - 1 < 41 * w"
    by simp
  then have "(length channelData - 0 + w - 1) div w < 41"
    using w by (simp add: div_less_iff_less_mult mult.commute)
  then have "length ([] :: jsnum list) + (length channelData - 0 + w - 1) div w \<le> array_length_limit"
    by (simp add: array_length_limit_def)
  from volumes_loop_returns [OF w this] show ?thesis
    by (auto simp: calculateVolumeVariation_def Let_def w_def)
qed

lemma estimateWordCount_loop_returns:
  "0 < windowSize \<Longrightarrow> \<exists>r. estimateWordCount_loop channelData windowSize i wordBoundaries = Some r"
proof (induction "nat (int (length channelData) - windowSize - i)" arbitrary: i wordBoundaries
    rule: less_induct)
  case less
  show ?case
  proof (cases "i < int (length channelData) - windowSize")
    case True
    with less.prems have "nat (int (length channelData) - windowSize - (i + windowSize))
        < nat (int (length channelData) - windowSize - i)"
      by arith
    from less.hyps [OF this less.prems] True show ?thesis
      by (subst estimateWordCount_loop.simps) simp
  next
    case False
    then show ?thesis
      by (subst estimateWordCount_loop.simps) simp
  qed
qed

lemma estimateWordCount_returns:
  assumes "10 \<le> rate"
  shows "\<exists>n. estimateWordCount channelData rate = Some n"
proof -
  from assms have "0 < \<lfloor>rate * 0.1\<rfloor>"
    by (simp add: less_floor_iff)
  from estimateWordCount_loop_returns [OF this, of channelData 0 0] show ?thesis
    by (auto simp: estimateWordCount_def)
qed

lemma estimateWordCount_short:
  "estimateWordCount (replicate 10 0) 48000 = Some 1"
  by (simp add: estimateWordCount_def estimateWordCount_loop.simps)

lemma extractAudioMetrics_returns:
  assumes "10 \<le> b_sampleRate audioBuffer"
  shows "\<exists>r. extractAudioMetrics audioBuffer = Some r"
proof -
  from estimateWordCount_returns [OF assms] obtain n
    where "estimateWordCount (b_channelData audioBuffer) (b_sampleRate audioBuffer) = Some n"
    by blast
  then show ?thesis
    by (simp add: extractAudioMetrics_def Let_def split: sum.split)
qed

lemma extractAudioMetrics_long:
  assumes "20 \<le> length (b_channelData audioBuffer)" and "10 \<le> b_sampleRate audioBuffer"
  shows "\<exists>m. extractAudioMetrics audioBuffer = Some (Inr m)"
proof -
  from estimateWordCount_returns [OF assms(2)] obtain n
    where "estimateWordCount (b_channelData audioBuffer) (b_sampleRate audioBuffer) = Some n"
    by blast
  moreover from calculateVolumeVariation_returns [OF assms(1)] obtain v
    where "calculateVolumeVariation (b_channelData audioBuffer) = Inr v"
    by blast
  ultimately show ?thesis
    by (simp add: extractAudioMetrics_def Let_def)
qed

lemma freeAudioAnalysis_short:
  "freeAudioAnalysis (Decodable \<lparr>b_channelData = replicate 10 0, b_sampleRate = 48000,
                                  b_duration = d\<rparr>) = Some None"
  by (simp add: freeAudioAnalysis_def blobToAudioBuffer_def extractAudioMetrics_def
      estimateWordCount_short calculateVolumeVariation_short)

lemma audio_outcome_returns:
  assumes "\<forall>audioBuffer. audioBlob = Some (Decodable audioBuffer) \<longrightarrow> 10 \<le> b_sampleRate audioBuffer"
  shows "\<exists>audioResult. audio_outcome audioBlob = Some audioResult"
proof (cases audioBlob)
  case None
  then show ?thesis by (simp add: audio_outcome_def)
next
  case (Some blob)
  show ?thesis
  proof (cases blob)
    case Undecodable
    with Some show ?thesis
      by (simp add: audio_outcome_def freeAudioAnalysis_def blobToAudioBuffer_def)
  next
    case (Decodable audioBuffer)
    with Some assms have "10 \<le> b_sampleRate audioBuffer"
      by simp
    from extractAudioMetrics_returns [OF this] obtain r where "extractAudioMetrics audioBuffer = Some r"
      by blast
    with Some Decodable show ?thesis
      by (simp add: audio_outcome_def freeAudioAnalysis_def blobToAudioBuffer_def split: sum.split)
  qed
qed

lemma audio_outcome_long:
  assumes "20 \<le> length (b_channelData audioBuffer)" and "10 \<le> b_sampleRate audioBuffer"
  shows "\<exists>m. audio_outcome (Some (Decodable audioBuffer)) = Some (Some m)"
  using extractAudioMetrics_long [OF assms]
  by (auto simp: audio_outcome_def freeAudioAnalysis_def blobToAudioBuffer_def)

subsection \<open>Validity of the combined scores\<close>

lemma truthy_relevance:
  "truthy (relevance (analyzeContentFree text hint question sec))"
  using relevance_range [of "text" hint question sec] by auto

lemma combineIntelligentResults_valid:
  assumes textResult:
      "textResult = None \<or> textResult = Some (intelligentTextAnalysis userResponse expectedAnswer question sec)"
    and audioResult:
      "audioResult = None \<or> (\<exists>m x. audioResult = Some m \<and> clarity m = Fin x \<and> 50 \<le> x \<and> x \<le> 100)"
  shows "valid_parameters (combineIntelligentResults textResult audioResult userResponse expectedAnswer)"
proof -
  let ?p = "combineIntelligentResults textResult audioResult userResponse expectedAnswer"
  have g: "is_score (grammar ?p)"
    using textResult g_score_bounds [of userResponse]
    by (auto simp: combineIntelligentResults_def Let_def intelligentTextAnalysis_def
        enhancedGrammarScore_def intro!: is_score_of_score)
  have v: "is_score (vocabulary ?p)"
    using textResult v_score_bounds [of userResponse]
    by (auto simp: combineIntelligentResults_def Let_def intelligentTextAnalysis_def
        enhancedVocabularyScore_def intro!: is_score_of_score)
  have c: "is_score (comprehension ?p)"
  proof -
    obtain r where r: "relevance (analyzeContentFree userResponse expectedAnswer question sec) = Fin r"
        "50 \<le> r" "r \<le> 100"
      using relevance_range by blast
    obtain r' where r': "relevance (analyzeContentFree userResponse expectedAnswer None None) = Fin r'"
        "50 \<le> r'" "r' \<le> 100"
      using relevance_range by blast
    from textResult r r' show ?thesis
      by (auto simp: combineIntelligentResults_def Let_def intelligentTextAnalysis_def
          enhancedComprehensionScore_def intro!: is_score_round)
  qed
  have p: "is_score (pronunciation ?p)"
    using audioResult estimatePronunciationFromText_bounds [of userResponse]
    by (auto simp: combineIntelligentResults_def Let_def intro!: is_score_of_score is_score_round)
  have f: "is_score (fluency ?p)"
    using estimateFluencyFromText_bounds [of userResponse] calculateFluencyFromRate_bounds
    by (auto simp: combineIntelligentResults_def Let_def intro!: is_score_of_score
        split: option.splits)
  from g v c p f show ?thesis
    by (simp add: valid_parameters_def)
qed

lemma extractAudioMetrics_clarity:
  "extractAudioMetrics audioBuffer = Some (Inr m) \<Longrightarrow>
   \<exists>x. clarity m = Fin x \<and> 50 \<le> x \<and> x \<le> 100"
  using estimateClarity_bounds
  by (auto simp: extractAudioMetrics_def Let_def split: option.splits sum.splits)

lemma freeAudioAnalysis_clarity:
  "freeAudioAnalysis audioBlob = Some (Some m) \<Longrightarrow>
   \<exists>x. clarity m = Fin x \<and> 50 \<le> x \<and> x \<le> 100"
  by (auto simp: freeAudioAnalysis_def split: sum.splits option.splits
      dest: extractAudioMetrics_clarity)

lemma audio_outcome_clarity:
  "audio_outcome audioBlob = Some audioResult \<Longrightarrow>
   audioResult = None \<or> (\<exists>m x. audioResult = Some m \<and> clarity m = Fin x \<and> 50 \<le> x \<and> x \<le> 100)"
  using freeAudioAnalysis_clarity
  by (cases audioResult) (auto simp: audio_outcome_def split: option.splits)

lemma assessResponse_valid:
  "assessResponse sec userResponse audioBlob expectedAnswer question = Some p \<Longrightarrow>
   valid_parameters p"
proof -
  assume a: "assessResponse sec userResponse audioBlob expectedAnswer question = Some p"
  then obtain audioResult where
      settled: "audio_outcome audioBlob = Some audioResult"
      and p: "p = combineIntelligentResults
                (Some (intelligentTextAnalysis userResponse expectedAnswer question (Some sec)))
                audioResult userResponse expectedAnswer"
    by (auto simp: assessResponse_def Let_def split: option.splits)
  have "audioResult = None \<or> (\<exists>m x. audioResult = Some m \<and> clarity m = Fin x \<and> 50 \<le> x \<and> x \<le> 100)"
  proof (cases audioResult)
    case None
    then show ?thesis by simp
  next
    case (Some m)
    with settled obtain b where "audioBlob = Some b" "freeAudioAnalysis b = Some (Some m)"
      by (auto simp: audio_outcome_def split: option.splits)
    with Some freeAudioAnalysis_clarity show ?thesis by blast
  qed
  then have "valid_parameters
          (combineIntelligentResults
             (Some (intelligentTextAnalysis userResponse expectedAnswer question (Some sec)))
             audioResult userResponse expectedAnswer)"
    by (intro combineIntelligentResults_valid [where question = question and sec = "Some sec"]) auto
  with p show ?thesis by simp
qed

lemma assessResponse_returns:
  "audio_outcome audioBlob = Some audioResult \<Longrightarrow>
   \<exists>p. assessResponse sec userResponse audioBlob expectedAnswer question = Some p"
  by (simp add: assessResponse_def)

subsection \<open>Transcripts of white space\<close>

lemma is_space_not_word: "is_space c \<Longrightarrow> \<not> is_word c"
  by (auto simp: is_space_def is_word_def Let_def)

lemma is_space_not_sentence_end: "is_space c \<Longrightarrow> \<not> is_sentence_end c"
proof -
  have "\<not> is_space CHR ''.''" "\<not> is_space CHR ''!''" "\<not> is_space CHR ''?''"
    by (simp_all add: is_space_def)
  then show "is_space c \<Longrightarrow> \<not> is_sentence_end c"
    by (auto simp: is_sentence_end_def)
qed

lemma is_space_toLowerCase_char: "is_space c \<Longrightarrow> toLowerCase_char c = c"
  by (auto simp: is_space_def toLowerCase_char_def Let_def)

lemma toLowerCase_whitespace: "list_all is_space s \<Longrightarrow> toLowerCase s = s"
  by (simp add: toLowerCase_def list_all_iff is_space_toLowerCase_char map_idI)

lemma trim_whitespace: "list_all is_space s \<Longrightarrow> trim s = []"
proof -
  assume "list_all is_space s"
  then have d: "dropWhile is_space s = []"
    by (induction s) auto
  show ?thesis unfolding trim_def d by simp
qed

lemma split_scan_chars:
  "\<forall>p \<in> set (split_scan sep insep cur s). set p \<subseteq> set cur \<union> set s"
proof (induction s arbitrary: insep cur)
  case Nil
  then show ?case by simp
next
  case (Cons c cs)
  have a: "\<forall>p \<in> set (split_scan sep True [] cs). set p \<subseteq> set cur \<union> set (c # cs)"
    using Cons.IH [of True "[]"] by auto
  have b: "\<forall>p \<in> set (split_scan sep False (cur @ [c]) cs). set p \<subseteq> set cur \<union> set (c # cs)"
    using Cons.IH [of False "cur @ [c]"] by auto
  from a b show ?case by auto
qed

lemma split_on_chars: "p \<in> set (split_on sep s) \<Longrightarrow> set p \<subseteq> set s"
  using split_scan_chars [of sep False "[]" s] by (simp add: split_on_def)

lemma split_scan_all_separators:
  "list_all sep s \<Longrightarrow> set (split_scan sep insep cur s) \<subseteq> {cur, []}"
proof (induction s arbitrary: insep cur)
  case Nil
  then show ?case by simp
next
  case (Cons c cs)
  then have "set (split_scan sep True [] cs) \<subseteq> {[]}"
    using Cons.IH [of True "[]"] by simp
  with Cons.prems show ?case by auto
qed

lemma split_on_all_separators: "list_all sep s \<Longrightarrow> filter (\<lambda>w. w \<noteq> []) (split_on sep s) = []"
  using split_scan_all_separators [of sep s False "[]"]
  by (auto simp: split_on_def filter_empty_conv)

lemma split_sentences_whitespace: "list_all is_space s \<Longrightarrow> split_sentences s = []"
proof -
  assume ws: "list_all is_space s"
  have "trim p = []" if "p \<in> set (split_on is_sentence_end s)" for p
  proof -
    from split_on_chars [OF that] ws have "list_all is_space p"
      by (auto simp: list_all_iff)
    then show ?thesis by (rule trim_whitespace)
  qed
  then show ?thesis
    by (simp add: split_sentences_def filter_empty_conv)
qed

lemma grammar_words_whitespace: "list_all is_space s \<Longrightarrow> grammar_words s = []"
  using split_on_all_separators [of is_space s]
  by (simp add: grammar_words_def split_whitespace_def toLowerCase_whitespace)

lemma match_lower_words_whitespace:
  "list_all is_space s \<Longrightarrow> match_lower_words (toLowerCase s) = []"
proof -
  assume ws: "list_all is_space s"
  then have "list_all (\<lambda>c. \<not> is_word c) s"
    by (auto simp: list_all_iff is_space_not_word)
  from split_on_all_separators [OF this] ws show ?thesis
    by (simp add: match_lower_words_def toLowerCase_whitespace)
qed

lemma first_alt_no_boundary: "\<not> word_boundary prev s \<Longrightarrow> first_alt alts prev s = None"
  by (induction alts) (auto simp: match_alt_def)

lemma re_search_no_word:
  "list_all (\<lambda>c. \<not> is_word c) s \<Longrightarrow> \<not> is_word_opt prev \<Longrightarrow> \<not> re_search alts prev s"
  by (induction s arbitrary: prev) (auto simp: first_alt_no_boundary word_boundary_def)

lemma pattern_matches_whitespace: "list_all is_space s \<Longrightarrow> \<not> pattern_matches s e"
  using re_search_no_word [of s None]
  by (auto simp: pattern_matches_def re_test_def list_all_iff is_space_not_word)

lemma str_includes_other: "list_all (\<lambda>c. c \<noteq> p) s \<Longrightarrow> \<not> str_includes s (p # ps)"
  by (induction s) auto

lemma str_includes_whitespace:
  "list_all is_space s \<Longrightarrow> is_word p \<Longrightarrow> \<not> str_includes s (p # ps)"
  by (rule str_includes_other) (auto simp: list_all_iff dest: is_space_not_word)

lemma has_conjunction_whitespace: "list_all is_space s \<Longrightarrow> \<not> has_conjunction s"
proof -
  assume ws: "list_all is_space s"
  have w: "is_word CHR ''a''" "is_word CHR ''b''" "is_word CHR ''h''" "is_word CHR ''t''"
    "is_word CHR ''m''" "is_word CHR ''f''"
    by (simp_all add: is_word_def)
  have "\<not> str_includes s conj" if "conj \<in> set grammar_conjunctions" for conj
    using that ws w by (auto simp: grammar_conjunctions_def str_includes_whitespace)
  with ws show ?thesis
    by (simp add: has_conjunction_def toLowerCase_whitespace list_ex_iff)
qed

lemma g_score_whitespace: "list_all is_space s \<Longrightarrow> g_score (analyzeGrammarFree s) = 70"
  by (simp add: analyzeGrammarFree_closed_form trim_whitespace ends_with_punctuation_def
      pattern_matches_whitespace has_conjunction_whitespace wordsPerSentence_def
      grammar_words_whitespace split_sentences_whitespace)

lemma findWordRepetitions_Nil: "findWordRepetitions [] = []"
  by (simp add: findWordRepetitions_def)

lemma analyzeVocabularyFree_whitespace:
  assumes ws: "list_all is_space s"
  shows "analyzeVocabularyFree s =
     \<lparr>v_score = 60,
      v_metrics = \<lparr>totalWords = 0, uniqueWordCount = 0, lexicalDiversity = Fin 0,
                   avgWordLength = Fin 0, advancedWords = 0\<rparr>,
      v_suggestions = [''Try using more varied vocabulary'',
                       ''Include some longer, more descriptive words'',
                       ''Consider using more sophisticated vocabulary'']\<rparr>"
  unfolding analyzeVocabularyFree_def match_lower_words_whitespace [OF ws]
  apply (simp only: Let_def)
  apply (simp only: list.size filter.simps remdups.simps foldl.simps findWordRepetitions_Nil)
  by (simp add: num_def lexical_diversity_bonus_def word_length_bonus_def
      advanced_vocabulary_bonus_def repetition_penalty_def vocabulary_suggestions_def)

lemma Math_round_of_score [simp]: "Math_round (of_score n) = Fin (of_int n)"
  by (simp add: of_score_def)

lemma combine_grammar_vocabulary:
  "grammar (combineIntelligentResults (Some (intelligentTextAnalysis u e q s)) a u e)
     = Fin (of_int (g_score (analyzeGrammarFree u)))
   \<and> vocabulary (combineIntelligentResults (Some (intelligentTextAnalysis u e q s)) a u e)
     = Fin (of_int (v_score (analyzeVocabularyFree u)))"
  by (simp add: combineIntelligentResults_def Let_def intelligentTextAnalysis_def
      enhancedGrammarScore_def enhancedVocabularyScore_def)

lemma assessResponse_empty:
  "assessResponse ''A'' '''' None None None =
     Some \<lparr>fluency = Fin 70, pronunciation = Fin 75, grammar = Fin 70, vocabulary = Fin 60,
           comprehension = Fin 70\<rparr>"
proof -
  have ws: "list_all is_space ''''" by simp
  have f: "estimateFluencyFromText '''' = 70" by code_simp
  have p: "estimatePronunciationFromText '''' = 75" by code_simp
  have c: "relevance (analyzeContentFree '''' None None (Some ''A'')) = Fin 70"
    by (simp add: relevance_not_supplied)
  show ?thesis
    by (simp add: assessResponse_def audio_outcome_def combineIntelligentResults_def Let_def
        intelligentTextAnalysis_def g_score_whitespace [OF ws]
        analyzeVocabularyFree_whitespace [OF ws] f p c)
qed

text \<open>
  C9. On a transcript that is empty or holds white space only, and for every recording
  whose analysis returns (also none, and one that cannot be decoded), \<^verbatim>\<open>assessResponse\<close>
  returns valid scores, with grammar 70 and vocabulary 60. The quotients of the analysers
  are finite: the lexical diversity and the average word length are 0, and so are the
  advanced-word ratio and the words per sentence, each divided by a count raised to at
  least 1. \<^verbatim>\<open>assessResponse("A", "")\<close> is 70, 75, 70, 60, 70.
\<close>

theorem whitespace_transcript_safe:
  assumes "list_all is_space userResponse"
    and "audio_outcome audioBlob = Some audioResult"
  shows "(\<exists>p. assessResponse sec userResponse audioBlob expectedAnswer question = Some p
            \<and> valid_parameters p \<and> grammar p = Fin 70 \<and> vocabulary p = Fin 60)
       \<and> v_metrics (analyzeVocabularyFree userResponse) =
           \<lparr>totalWords = 0, uniqueWordCount = 0, lexicalDiversity = Fin 0,
            avgWordLength = Fin 0, advancedWords = 0\<rparr>
       \<and> js_div (num (advancedWords (v_metrics (analyzeVocabularyFree userResponse))))
            (num (max (totalWords (v_metrics (analyzeVocabularyFree userResponse))) 1)) = Fin 0
       \<and> js_div (num (length (grammar_words userResponse)))
            (num (max (length (split_sentences userResponse)) 1)) = Fin 0
       \<and> assessResponse ''A'' '''' None None None =
           Some \<lparr>fluency = Fin 70, pronunciation = Fin 75, grammar = Fin 70,
                 vocabulary = Fin 60, comprehension = Fin 70\<rparr>"
proof -
  from assessResponse_returns [OF assms(2)] obtain p
    where p: "assessResponse sec userResponse audioBlob expectedAnswer question = Some p"
    by blast
  then have valid: "valid_parameters p"
    by (rule assessResponse_valid)
  from p assms(2) have p_eq: "p = combineIntelligentResults
      (Some (intelligentTextAnalysis userResponse expectedAnswer question (Some sec)))
      audioResult userResponse expectedAnswer"
    by (simp add: assessResponse_def)
  have gv: "grammar p = Fin 70 \<and> vocabulary p = Fin 60"
    unfolding p_eq
    by (simp add: combine_grammar_vocabulary g_score_whitespace [OF assms(1)]
        analyzeVocabularyFree_whitespace [OF assms(1)])
  have metrics: "v_metrics (analyzeVocabularyFree userResponse) =
           \<lparr>totalWords = 0, uniqueWordCount = 0, lexicalDiversity = Fin 0,
            avgWordLength = Fin 0, advancedWords = 0\<rparr>"
    by (simp add: analyzeVocabularyFree_whitespace [OF assms(1)])
  have ratio: "js_div (num (advancedWords (v_metrics (analyzeVocabularyFree userResponse))))
            (num (max (totalWords (v_metrics (analyzeVocabularyFree userResponse))) 1)) = Fin 0"
    by (simp add: metrics)
  have avg: "js_div (num (length (grammar_words userResponse)))
            (num (max (length (split_sentences userResponse)) 1)) = Fin 0"
    by (simp add: grammar_words_whitespace [OF assms(1)] split_sentences_whitespace [OF assms(1)])
  from p valid gv metrics ratio avg assessResponse_empty show ?thesis
    by blast
qed

theorem whitespace_transcript_safe_witness:
  "\<exists>p. assessResponse ''B'' [CHR '' '', CHR 0x09] (Some Undecodable) (Some ''team conflict'') None = Some p
      \<and> valid_parameters p \<and> grammar p = Fin 70 \<and> vocabulary p = Fin 60"
proof -
  have ws: "list_all is_space [CHR '' '', CHR 0x09]"
    by (simp add: is_space_def)
  have settled: "audio_outcome (Some Undecodable) = Some None"
    by (simp add: audio_outcome_def freeAudioAnalysis_def blobToAudioBuffer_def)
  from whitespace_transcript_safe [OF ws settled] show ?thesis
    by blast
qed

subsection \<open>The entry point returns valid scores\<close>

lemma assessResponse_short_recording:
  "assessResponse ''A'' ''Hello.''
     (Some (Decodable \<lparr>b_channelData = replicate 10 0, b_sampleRate = 48000,
                        b_duration = 10 / 48000\<rparr>)) None None
   = Some \<lparr>fluency = Fin 70, pronunciation = Fin 75, grammar = Fin 80, vocabulary = Fin 90,
           comprehension = Fin 70\<rparr>"
proof -
  have f: "estimateFluencyFromText ''Hello.'' = 70" by code_simp
  have p: "estimatePronunciationFromText ''Hello.'' = 75" by code_simp
  have g: "g_score (analyzeGrammarFree ''Hello.'') = 80" by code_simp
  have v: "v_score (analyzeVocabularyFree ''Hello.'') = 90" by code_simp
  have c: "relevance (analyzeContentFree ''Hello.'' None None (Some ''A'')) = Fin 70"
    by (simp add: relevance_not_supplied)
  show ?thesis
    by (simp add: assessResponse_def audio_outcome_def freeAudioAnalysis_short
        combineIntelligentResults_def Let_def intelligentTextAnalysis_def f p g v c)
qed

text \<open>
  C1. For every section, transcript, expected answer and question text, and for every
  recording, \<^verbatim>\<open>assessResponse\<close> returns scores that are five integers from 0 to 100: with no
  recording, with one that cannot be decoded, and with one that decodes to a buffer of any
  samples and duration at a sample rate of 10 or more (a browser decodes to the sample rate
  of its audio context, thousands of samples per second). The same holds of the scores
  combined when the text analysis is missing and the estimates from the transcript take its
  place. An exception of the audio analysis is caught and the scores come from the
  transcript: for a recording of 10 samples the volume loop raises \<^verbatim>\<open>RangeError\<close>, and
  \<^verbatim>\<open>assessResponse("A", "Hello.", recording)\<close> is 70, 75, 80, 90, 70.
\<close>

theorem assessResponse_always_valid:
  assumes "\<forall>audioBuffer. audioBlob = Some (Decodable audioBuffer) \<longrightarrow> 10 \<le> b_sampleRate audioBuffer"
  shows "(\<exists>p. assessResponse sec userResponse audioBlob expectedAnswer question = Some p
            \<and> valid_parameters p)
       \<and> (\<exists>audioResult. audio_outcome audioBlob = Some audioResult
            \<and> valid_parameters
                (combineIntelligentResults None audioResult userResponse expectedAnswer))
       \<and> assessResponse ''A'' ''Hello.''
           (Some (Decodable \<lparr>b_channelData = replicate 10 0, b_sampleRate = 48000,
                              b_duration = 10 / 48000\<rparr>)) None None
         = Some \<lparr>fluency = Fin 70, pronunciation = Fin 75, grammar = Fin 80,
                 vocabulary = Fin 90, comprehension = Fin 70\<rparr>"
proof -
  from audio_outcome_returns [OF assms] obtain audioResult
    where settled: "audio_outcome audioBlob = Some audioResult"
    by blast
  from assessResponse_returns [OF settled] obtain p
    where p: "assessResponse sec userResponse audioBlob expectedAnswer question = Some p"
    by blast
  then have "valid_parameters p"
    by (rule assessResponse_valid)
  moreover from audio_outcome_clarity [OF settled]
  have "valid_parameters (combineIntelligentResults None audioResult userResponse expectedAnswer)"
    by (intro combineIntelligentResults_valid [where question = question and sec = "Some sec"]) auto
  ultimately show ?thesis
    using p settled assessResponse_short_recording by blast
qed

theorem assessResponse_always_valid_witness:
  "10 \<le> b_sampleRate \<lparr>b_channelData = replicate 40 (1 / 2), b_sampleRate = 20, b_duration = 2\<rparr>
   \<and> (\<exists>p. assessResponse ''B'' ''I am fine.''
            (Some (Decodable \<lparr>b_channelData = replicate 40 (1 / 2), b_sampleRate = 20,
                               b_duration = 2\<rparr>))
            (Some ''fine'') None = Some p
          \<and> valid_parameters p)"
proof -
  have rate: "\<forall>audioBuffer.
      Some (Decodable \<lparr>b_channelData = replicate 40 (1 / 2), b_sampleRate = 20, b_duration = 2\<rparr>)
        = Some (Decodable audioBuffer) \<longrightarrow> 10 \<le> b_sampleRate audioBuffer"
    by auto
  from assessResponse_always_valid [OF rate, of "''B''" "''I am fine.''" "Some ''fine''" None]
  show ?thesis
    by simp
qed

subsection \<open>The repetition penalty and inherited properties\<close>

lemma proto_in_keys: "''__proto__'' \<in> set Object_prototype_keys"
  by (simp add: Object_prototype_keys_def)

lemma count_step_invariant:
  "distinct (map fst (fold count_step xs [])) \<and> map_of (fold count_step xs []) = counted xs"
proof (induction xs rule: rev_induct)
  case Nil
  show ?case by (auto simp: counted_def)
next
  case (snoc x xs)
  let ?wc = "fold count_step xs []"
  from snoc have d: "distinct (map fst ?wc)" and m: "map_of ?wc = counted xs"
    by simp_all
  have step: "fold count_step (xs @ [x]) [] = count_step x ?wc"
    by simp
  have "distinct (map fst (count_step x ?wc))"
    using d by (simp add: count_step_def assign_def distinct_update)
  moreover have "map_of (count_step x ?wc) w = counted (xs @ [x]) w" for w
  proof (cases "3 < length x \<and> x \<noteq> ''__proto__''")
    case False
    then have "count_step x ?wc = ?wc"
      by (auto simp: count_step_def assign_def)
    moreover from False have "counted (xs @ [x]) w = counted xs w"
      by (auto simp: counted_def)
    ultimately show ?thesis using m by simp
  next
    case True
    then have upd: "count_step x ?wc = AList.update x (incremented ?wc x) ?wc"
      by (simp add: count_step_def assign_def)
    show ?thesis
    proof (cases "w = x")
      case False
      then have "counted (xs @ [x]) w = counted xs w"
        by (auto simp: counted_def)
      with False upd m show ?thesis
        by (simp add: update_conv')
    next
      case w: True
      have "incremented ?wc x =
          (if x \<in> set Object_prototype_keys then Text else Number (count_list (xs @ [x]) x))"
        using True m by (auto simp: incremented_def counted_def)
      with w upd True show ?thesis
        by (simp add: update_conv' counted_def)
    qed
  qed
  ultimately show ?case
    unfolding step by blast
qed

lemma findWordRepetitions_set:
  "set (findWordRepetitions ws) =
     {w \<in> set ws. 3 < length w \<and> 2 < count_list ws w \<and> w \<notin> set Object_prototype_keys}"
proof -
  let ?wc = "fold count_step ws []"
  from count_step_invariant [of ws]
  have d: "distinct (map fst ?wc)" and m: "map_of ?wc = counted ws"
    by simp_all
  have "w \<in> set (findWordRepetitions ws) \<longleftrightarrow>
      (\<exists>v. map_of ?wc w = Some v \<and> exceeds_two v)" for w
    using d by (force simp: findWordRepetitions_def)
  also have "\<dots> w \<longleftrightarrow>
      w \<in> set ws \<and> 3 < length w \<and> 2 < count_list ws w \<and> w \<notin> set Object_prototype_keys" for w
    using proto_in_keys by (auto simp: m counted_def)
  finally show ?thesis by blast
qed

lemma findWordRepetitions_distinct: "distinct (findWordRepetitions ws)"
proof -
  from count_step_invariant [of ws] have "distinct (map fst (fold count_step ws []))"
    by simp
  then show ?thesis
    unfolding findWordRepetitions_def Let_def by (rule distinct_map_filter)
qed

lemma findWordRepetitions_length:
  "length (findWordRepetitions ws) =
     card {w \<in> set ws. 3 < length w \<and> 2 < count_list ws w \<and> w \<notin> set Object_prototype_keys}"
  using findWordRepetitions_set [of ws] distinct_card [OF findWordRepetitions_distinct, of ws]
  by simp

lemma lower_prototype_keys:
  "filter (list_all is_lower_az) Object_prototype_keys = [''constructor'']"
  by code_simp

lemma vocabulary_words_lower: "w \<in> set (vocabulary_words text) \<Longrightarrow> list_all is_lower_az w"
  by (simp add: vocabulary_words_def match_lower_words_def)

lemma vocabulary_words_prototype:
  assumes "w \<in> set (vocabulary_words text)"
  shows "w \<in> set Object_prototype_keys \<longleftrightarrow> w = ''constructor''"
proof -
  from assms have "w \<in> set Object_prototype_keys \<longleftrightarrow>
      w \<in> set (filter (list_all is_lower_az) Object_prototype_keys)"
    by (simp add: vocabulary_words_lower)
  then show ?thesis
    by (simp only: lower_prototype_keys) simp
qed

lemma vocabulary_repetitions:
  "length (findWordRepetitions (vocabulary_words text)) =
     card {w \<in> set (vocabulary_words text).
             3 < length w \<and> 2 < count_list (vocabulary_words text) w \<and> w \<noteq> ''constructor''}"
proof -
  have "{w \<in> set (vocabulary_words text). 3 < length w \<and> 2 < count_list (vocabulary_words text) w
            \<and> w \<notin> set Object_prototype_keys}
      = {w \<in> set (vocabulary_words text). 3 < length w \<and> 2 < count_list (vocabulary_words text) w
            \<and> w \<noteq> ''constructor''}"
    using vocabulary_words_prototype by blast
  then show ?thesis
    by (simp add: findWordRepetitions_length)
qed

lemma foldl_length_sum: "foldl (\<lambda>sum w. sum + length w) a ws = a + sum_list (map length ws)"
  by (induction ws arbitrary: a) auto

lemma lexical_diversity_bonus_Fin:
  "lexical_diversity_bonus (Fin d) score =
     score + (if d > 0.8 then 25 else if d > 0.6 then 20 else if d > 0.4 then 15
              else if d > 0.2 then 10 else 0)"
  by (simp add: lexical_diversity_bonus_def)

lemma word_length_bonus_Fin:
  "word_length_bonus (Fin l) score =
     score + (if l > 6 then 15 else if l > 5 then 10 else if l > 4 then 5 else 0)"
  by (simp add: word_length_bonus_def)

lemma advanced_vocabulary_bonus_Fin:
  "advanced_vocabulary_bonus (Fin r) score =
     score + (if r > 0.3 then 15 else if r > 0.2 then 10 else if r > 0.1 then 5 else 0)"
  by (simp add: advanced_vocabulary_bonus_def)

lemma repetition_penalty_eq: "repetition_penalty reps score = score - 3 * int (length reps)"
  by (simp add: repetition_penalty_def)

text \<open>
  The score of the vocabulary analyser in closed form: the base 60, one tier for each of
  the three metrics, and 3 points off for every distinct word of more than three letters
  that occurs more than twice, the word "constructor" excepted.
\<close>

lemma analyzeVocabularyFree_closed_form:
  "v_score (analyzeVocabularyFree text) =
     max 0 (min 100
       (60
        + (if diversity > 0.8 then 25 else if diversity > 0.6 then 20
           else if diversity > 0.4 then 15 else if diversity > 0.2 then 10 else 0)
        + (if avgLength > 6 then 15 else if avgLength > 5 then 10
           else if avgLength > 4 then 5 else 0)
        + (if advancedRatio > 0.3 then 15 else if advancedRatio > 0.2 then 10
           else if advancedRatio > 0.1 then 5 else 0)
        - 3 * int (card {w \<in> set ws. 3 < length w \<and> 2 < count_list ws w \<and> w \<noteq> ''constructor''})))"
  if "ws = vocabulary_words text"
    and "diversity = real (length (remdups ws)) / real (max (length ws) 1)"
    and "avgLength = real (sum_list (map length ws)) / real (max (length ws) 1)"
    and "advancedRatio = real (length (filter is_advanced ws)) / real (max (length ws) 1)"
proof -
  have "v_score (analyzeVocabularyFree text) =
      max 0 (min 100
        (repetition_penalty (findWordRepetitions ws)
           (advanced_vocabulary_bonus (Fin advancedRatio)
              (word_length_bonus (Fin avgLength) (lexical_diversity_bonus (Fin diversity) 60)))))"
    unfolding that
    by (simp add: analyzeVocabularyFree_def Let_def vocabulary_words_def foldl_length_sum
        is_advanced_def [abs_def])
  then show ?thesis
    unfolding repetition_penalty_eq advanced_vocabulary_bonus_Fin word_length_bonus_Fin
      lexical_diversity_bonus_Fin
    using vocabulary_repetitions [of "text"] that(1)
    by (simp split del: if_split)
qed

text \<open>
  C6 fails on the word "constructor": the counter object inherits a property of that name,
  so the count of the word becomes a string and never exceeds 2. Three occurrences of the
  word cost nothing (the score is 100), while three occurrences of "destructor", a word of
  the same shape, cost the 3 points of the claim (the score is 97). On every other word
  the analyser does what the claim says (\<open>analyzeVocabularyFree_closed_form\<close>).
\<close>

theorem analyzeVocabularyFree_constructor:
  "v_score (analyzeVocabularyFree ''constructor constructor constructor'') = 100
   \<and> match_lower_words (toLowerCase ''constructor constructor constructor'')
       = [''constructor'', ''constructor'', ''constructor'']
   \<and> findWordRepetitions [''constructor'', ''constructor'', ''constructor''] = []
   \<and> v_score (analyzeVocabularyFree ''destructor destructor destructor'') = 97"
  by code_simp

subsection \<open>The question text\<close>

text \<open>
  C10. Two calls of \<^verbatim>\<open>assessResponse\<close> that differ in the question text only return the
  same result: the completeness analysis takes the question and does not read it, and the
  combiner reads neither the completeness nor the coherence of the content analysis.
\<close>

theorem questionText_irrelevant:
  "assessResponse sec userResponse audioBlob expectedAnswer question1
     = assessResponse sec userResponse audioBlob expectedAnswer question2
   \<and> analyzeCompletenessForSection userResponse sec question1
     = analyzeCompletenessForSection userResponse sec question2
   \<and> combineIntelligentResults
       (Some (t\<lparr>ta_content := (ta_content t)\<lparr>completeness := c, coherence := k\<rparr>\<rparr>))
       audioResult userResponse expectedAnswer
     = combineIntelligentResults (Some t) audioResult userResponse expectedAnswer"
proof -
  have completeness_eq: "analyzeCompletenessForSection text s question1
     = analyzeCompletenessForSection text s question2" for "text" s
    by (simp only: analyzeCompletenessForSection_def)
  have content_eq: "analyzeContentFree text e question1 s = analyzeContentFree text e question2 s"
    for "text" e s
    by (simp only: analyzeContentFree_def completeness_eq)
  have "assessResponse sec userResponse audioBlob expectedAnswer question1
     = assessResponse sec userResponse audioBlob expectedAnswer question2"
    by (simp only: assessResponse_def intelligentTextAnalysis_def content_eq)
  moreover have "combineIntelligentResults
       (Some (t\<lparr>ta_content := (ta_content t)\<lparr>completeness := c, coherence := k\<rparr>\<rparr>))
       audioResult userResponse expectedAnswer
     = combineIntelligentResults (Some t) audioResult userResponse expectedAnswer"
    by (simp add: combineIntelligentResults_def)
  ultimately show ?thesis
    using completeness_eq by blast
qed

end
